theory Spec2Isabelle
  imports Main "HOL-Library.Word" "HOL-Library.Sublist"
begin

section \<open>The lfsapi client: environments, proxies, the host-client cache, responses\<close>

text \<open>
  A shallow embedding of \<^verbatim>\<open>lfsapi/lfsapi.go\<close>. Go's \<^verbatim>\<open>int\<close> is taken at its 64-bit
  width (\<open>64 word\<close>, read as two's complement), \<^verbatim>\<open>time.Duration\<close> is an \<^verbatim>\<open>int64\<close>
  count of nanoseconds, strings are byte strings, \<^verbatim>\<open>nil\<close> is \<open>None\<close>. The mutex
  \<^verbatim>\<open>clientMu\<close> is held for the whole of \<^verbatim>\<open>httpClient\<close>, so that each call is one
  atomic step on the client's state; the model runs these steps one after another.
\<close>

subsection \<open>Errors\<close>

text \<open>
  \<open>ErrSyntax\<close> and \<open>ErrRange\<close> are the two failures of \<^verbatim>\<open>strconv.Atoi\<close>; \<open>Opaque\<close>
  is any other error value (of the network, of the JSON decoder, of the netrc parser, of
  the repository's \<^verbatim>\<open>errors\<close> package), told apart by its text.
\<close>

datatype error = ErrSyntax | ErrRange | Opaque string

subsection \<open>The environment interface and its map implementation\<close>

text \<open>
  The interface \<^verbatim>\<open>env\<close> is the record of its four methods. \<^verbatim>\<open>testEnv\<close> is a
  \<^verbatim>\<open>map[string]string\<close>; reading an absent key of a Go map gives the empty string and
  \<^verbatim>\<open>false\<close>.
\<close>

type_synonym go_int = "64 word"

record env =
  env_Get :: "string \<Rightarrow> string \<times> bool"
  env_Int :: "string \<Rightarrow> go_int \<Rightarrow> go_int"
  env_Bool :: "string \<Rightarrow> bool \<Rightarrow> bool"
  env_All :: "string \<rightharpoonup> string"

type_synonym testEnv = "string \<rightharpoonup> string"

definition testEnv_Get :: "testEnv \<Rightarrow> string \<Rightarrow> string \<times> bool" where
  "testEnv_Get e key = (case e key of None \<Rightarrow> ('''', False) | Some v \<Rightarrow> (v, True))"

text \<open>
  \<^verbatim>\<open>strconv.Atoi\<close> (the Go library): an optional sign, then one or more decimal
  digits and nothing else; a value outside the range of \<^verbatim>\<open>int\<close> is an error.
\<close>

definition is_digit :: "char \<Rightarrow> bool" where
  "is_digit c = (48 \<le> (of_char c :: nat) \<and> (of_char c :: nat) \<le> 57)"

definition decimal :: "string \<Rightarrow> nat" where
  "decimal ds = foldl (\<lambda>n c. 10 * n + ((of_char c :: nat) - 48)) 0 ds"

definition Atoi :: "string \<Rightarrow> error + go_int" where
  "Atoi s =
     (let neg = (case s of [] \<Rightarrow> False | c # _ \<Rightarrow> c = CHR ''-'');
          ds = (case s of [] \<Rightarrow> [] | c # r \<Rightarrow> if c = CHR ''-'' \<or> c = CHR ''+'' then r else s)
      in if ds = [] \<or> \<not> list_all is_digit ds then Inl ErrSyntax
         else if neg then (if 2 ^ 63 < decimal ds then Inl ErrRange else Inr (- word_of_nat (decimal ds)))
         else (if 2 ^ 63 \<le> decimal ds then Inl ErrRange else Inr (word_of_nat (decimal ds))))"

definition testEnv_Int :: "testEnv \<Rightarrow> string \<Rightarrow> go_int \<Rightarrow> go_int" where
  "testEnv_Int e key def =
     (let s = fst (testEnv_Get e key)
      in if length s = 0 then def
         else (case Atoi s of Inl err \<Rightarrow> def | Inr i \<Rightarrow> i))"

text \<open>
  \<^verbatim>\<open>strings.ToLower\<close> on bytes: the letters \<^verbatim>\<open>A\<close> to \<^verbatim>\<open>Z\<close> are lowered, every other
  byte is kept. On a string with a rune outside ASCII Go lowers by Unicode rules; the only
  such runes that lower to an ASCII letter give \<^verbatim>\<open>k\<close> (U+212A) and \<^verbatim>\<open>i\<close> (U+0130), which
  occur in none of the ten literals of \<^verbatim>\<open>Bool\<close>, so that the comparison with these
  literals has the same result.
\<close>

definition toLower_char :: "char \<Rightarrow> char" where
  "toLower_char c =
     (if 65 \<le> (of_char c :: nat) \<and> (of_char c :: nat) \<le> 90
      then char_of ((of_char c :: nat) + 32) else c)"

definition ToLower :: "string \<Rightarrow> string" where
  "ToLower s = map toLower_char s"

definition testEnv_Bool :: "testEnv \<Rightarrow> string \<Rightarrow> bool \<Rightarrow> bool" where
  "testEnv_Bool e key def =
     (let s = fst (testEnv_Get e key)
      in if length s = 0 then def
         else if ToLower s \<in> {''true'', ''1'', ''on'', ''yes'', ''t''} then True
         else if ToLower s \<in> {''false'', ''0'', ''off'', ''no'', ''f''} then False
         else False)"

definition testEnv_All :: "testEnv \<Rightarrow> (string \<rightharpoonup> string)" where
  "testEnv_All e = e"

text \<open>A \<^verbatim>\<open>testEnv\<close> used where an \<^verbatim>\<open>env\<close> is expected.\<close>

definition testEnv_env :: "testEnv \<Rightarrow> env" where
  "testEnv_env e =
     \<lparr>env_Get = testEnv_Get e, env_Int = testEnv_Int e, env_Bool = testEnv_Bool e,
      env_All = testEnv_All e\<rparr>"

subsection \<open>Proxy resolution\<close>

definition HasPrefix :: "string \<Rightarrow> string \<Rightarrow> bool" where
  "HasPrefix s p = prefix p s"

definition getProxyServers :: "env \<Rightarrow> env \<Rightarrow> string \<times> string \<times> string" where
  "getProxyServers osEnv gitEnv =
     (let httpsProxy0 = '''';
          httpProxy0 = fst (env_Get gitEnv ''http.proxy'');
          httpsProxy1 = (if HasPrefix httpProxy0 ''https://'' then httpProxy0 else httpsProxy0);
          httpsProxy2 = (if length httpsProxy1 = 0 then fst (env_Get osEnv ''HTTPS_PROXY'')
                         else httpsProxy1);
          httpsProxy3 = (if length httpsProxy2 = 0 then fst (env_Get osEnv ''https_proxy'')
                         else httpsProxy2);
          httpProxy1 = (if length httpProxy0 = 0 then fst (env_Get osEnv ''HTTP_PROXY'')
                        else httpProxy0);
          httpProxy2 = (if length httpProxy1 = 0 then fst (env_Get osEnv ''http_proxy'')
                        else httpProxy1);
          noProxy0 = fst (env_Get osEnv ''NO_PROXY'');
          noProxy1 = (if length noProxy0 = 0 then fst (env_Get osEnv ''no_proxy'') else noProxy0)
      in (httpsProxy3, httpProxy2, noProxy1))"

subsection \<open>The two media-type patterns\<close>

text \<open>
  The regular expressions of the source use the start anchor \<^verbatim>\<open>\A\<close>, the end anchor
  \<^verbatim>\<open>\z\<close>, literal characters (the escapes \<^verbatim>\<open>\.\<close>, \<^verbatim>\<open>\-\<close>, \<^verbatim>\<open>\+\<close> are the
  characters themselves), sequencing and one alternation. \<open>ends re s i\<close> lists the
  positions at which a match of \<open>re\<close> that starts at position \<open>i\<close> of \<open>s\<close> can end;
  \<^verbatim>\<open>MatchString\<close> asks for a match starting anywhere.
\<close>

datatype regexp = BeginText | EndText | Lit char | Cat regexp regexp | Alt regexp regexp

fun ends :: "regexp \<Rightarrow> string \<Rightarrow> nat \<Rightarrow> nat list" where
  "ends BeginText s i = (if i = 0 then [i] else [])"
| "ends EndText s i = (if i = length s then [i] else [])"
| "ends (Lit c) s i = (if i < length s \<and> s ! i = c then [Suc i] else [])"
| "ends (Cat a b) s i = concat (map (ends b s) (ends a s i))"
| "ends (Alt a b) s i = ends a s i @ ends b s i"

definition MatchString :: "regexp \<Rightarrow> string \<Rightarrow> bool" where
  "MatchString re s = list_ex (\<lambda>i. ends re s i \<noteq> []) [0..<Suc (length s)]"

text \<open>The characters of \<open>l\<close> one after the other, then \<open>k\<close>.\<close>

fun Str :: "string \<Rightarrow> regexp \<Rightarrow> regexp" where
  "Str [] k = k"
| "Str (c # cs) k = Cat (Lit c) (Str cs k)"

definition lfsMediaTypeRE :: regexp where
  "lfsMediaTypeRE =
     Cat BeginText (Str ''application/vnd.git-lfs+json'' (Alt (Lit CHR '';'') EndText))"

definition jsonMediaTypeRE :: regexp where
  "jsonMediaTypeRE = Cat BeginText (Str ''application/json'' (Alt (Lit CHR '';'') EndText))"

subsection \<open>Requests and responses\<close>

text \<open>
  Of a request the code reads the host, the method and the URL (as \<^verbatim>\<open>%s\<close> prints it).
  A response body is a stream: the bytes not yet read and the number of times it has been
  closed. \<^verbatim>\<open>Header.Get\<close> gives the first value stored under the key, or the empty
  string.
\<close>

record request =
  Method :: string
  URL :: string
  Host :: string

record body =
  unread :: string
  closes :: nat

record response =
  Header :: "string \<rightharpoonup> string list"
  Body :: body
  Request :: "request option"

definition Header_Get :: "(string \<rightharpoonup> string list) \<Rightarrow> string \<Rightarrow> string" where
  "Header_Get h key =
     (case h key of None \<Rightarrow> [] | Some vs \<Rightarrow> (case vs of [] \<Rightarrow> [] | v # _ \<Rightarrow> v))"

text \<open>
  A call either returns its error value or panics on a nil pointer: \<^verbatim>\<open>res.Request\<close>
  is dereferenced when the error message is built.
\<close>

datatype outcome = Returned "error option" | Panicked

text \<open>
  \<^verbatim>\<open>json.NewDecoder(res.Body).Decode(obj)\<close> is the Go library's; it is a parameter
  \<open>json_Decode\<close> that takes the unread bytes and the target and gives the error, the
  target as the decoder leaves it and the bytes it has not read. A decoder has no access
  to the stream's \<^verbatim>\<open>Close\<close>. \<^verbatim>\<open>errors.Wrapf\<close> belongs to another package of the
  repository; it is a parameter \<open>errors_Wrapf\<close> that takes the cause, the format and the
  arguments of the format.
\<close>

definition decodeResponse ::
  "(string \<Rightarrow> 'o \<Rightarrow> error option \<times> 'o \<times> string) \<Rightarrow> (error \<Rightarrow> string \<Rightarrow> string list \<Rightarrow> error)
     \<Rightarrow> response \<Rightarrow> 'o \<Rightarrow> outcome \<times> response \<times> 'o"
where
  "decodeResponse json_Decode errors_Wrapf res obj =
     (let ctype = Header_Get (Header res) ''Content-Type''
      in if \<not> (MatchString lfsMediaTypeRE ctype \<or> MatchString jsonMediaTypeRE ctype)
         then (Returned None, res, obj)
         else
           (let (err, obj1, rest) = json_Decode (unread (Body res)) obj;
                res1 = res\<lparr>Body := (Body res)\<lparr>unread := rest\<rparr>\<rparr>;
                res2 = res1\<lparr>Body := (Body res1)\<lparr>closes := closes (Body res1) + 1\<rparr>\<rparr>
            in case err of
                 None \<Rightarrow> (Returned None, res2, obj1)
               | Some e \<Rightarrow>
                   (case Request res2 of
                      None \<Rightarrow> (Panicked, res2, obj1)
                    | Some rq \<Rightarrow>
                        (Returned (Some (errors_Wrapf e
                           ''Unable to parse HTTP response for %s %s'' [Method rq, URL rq])),
                         res2, obj1))))"

subsection \<open>The client\<close>

record CommandCredentialHelper =
  SkipPrompt :: bool

text \<open>
  The endpoint finder and the netrc finder are values of types the code only stores.
  \<^verbatim>\<open>hostClients\<close> maps a host to a pointer to its \<^verbatim>\<open>http.Client\<close>; pointers are
  addresses into the heap of the clients allocated so far.
\<close>

record ('ef, 'nf) Client =
  Endpoints :: 'ef
  Credentials :: "CommandCredentialHelper option"
  Netrc :: 'nf
  DialTimeout :: go_int
  KeepaliveTimeout :: go_int
  TLSTimeout :: go_int
  ConcurrentTransfers :: go_int
  HTTPSProxy :: string
  HTTPProxy :: string
  NoProxy :: string
  SkipSSLVerify :: bool
  hostClients :: "(string \<rightharpoonup> nat) option"
  gitEnv :: "env option"
  osEnv :: "env option"

text \<open>
  \<^verbatim>\<open>ParseNetrc\<close> and \<^verbatim>\<open>NewEndpointFinder\<close> are defined in other files of the package and
  are parameters here.
\<close>

definition NewClient ::
  "(env \<Rightarrow> error + 'nf) \<Rightarrow> (env \<Rightarrow> 'ef) \<Rightarrow> env option \<Rightarrow> env option \<Rightarrow> error + ('ef, 'nf) Client"
where
  "NewClient ParseNetrc NewEndpointFinder osEnv0 gitEnv0 =
     (let osEnv1 = (case osEnv0 of None \<Rightarrow> testEnv_env Map.empty | Some e \<Rightarrow> e);
          gitEnv1 = (case gitEnv0 of None \<Rightarrow> testEnv_env Map.empty | Some e \<Rightarrow> e)
      in case ParseNetrc osEnv1 of
           Inl err \<Rightarrow> Inl err
         | Inr netrc \<Rightarrow>
             (let (httpsProxy, httpProxy, noProxy) = getProxyServers osEnv1 gitEnv1
              in Inr \<lparr>Endpoints = NewEndpointFinder gitEnv1,
                      Credentials =
                        Some \<lparr>SkipPrompt = (\<not> env_Bool osEnv1 ''GIT_TERMINAL_PROMPT'' True)\<rparr>,
                      Netrc = netrc,
                      DialTimeout = env_Int gitEnv1 ''lfs.dialtimeout'' 0,
                      KeepaliveTimeout = env_Int gitEnv1 ''lfs.keepalive'' 0,
                      TLSTimeout = env_Int gitEnv1 ''lfs.tlstimeout'' 0,
                      ConcurrentTransfers = env_Int gitEnv1 ''lfs.concurrenttransfers'' 0,
                      HTTPSProxy = httpsProxy,
                      HTTPProxy = httpProxy,
                      NoProxy = noProxy,
                      SkipSSLVerify =
                        (\<not> env_Bool gitEnv1 ''http.sslverify'' True
                         \<or> env_Bool osEnv1 ''GIT_SSL_NO_VERIFY'' False),
                      hostClients = None,
                      gitEnv = Some gitEnv1,
                      osEnv = Some osEnv1\<rparr>))"

subsection \<open>The host-client cache\<close>

definition Second :: go_int where
  "Second = 1000000000"

record Dialer =
  Timeout :: go_int
  KeepAlive :: go_int

record 'ca tls_Config =
  InsecureSkipVerify :: bool
  RootCAs :: "'ca option"

record ('p, 'ca) http_Transport =
  Proxy :: 'p
  Dial :: Dialer
  TLSHandshakeTimeout :: go_int
  MaxIdleConnsPerHost :: go_int
  TLSClientConfig :: "'ca tls_Config"

record ('p, 'ca) http_Client =
  Transport :: "('p, 'ca) http_Transport"

text \<open>
  \<^verbatim>\<open>ProxyFromClient\<close>, \<^verbatim>\<open>isCertVerificationDisabledForHost\<close> and \<^verbatim>\<open>getRootCAsForHost\<close>
  are defined in other files of the package; they are the fields of a record of
  parameters.
\<close>

record ('ef, 'nf, 'p, 'ca) helpers =
  ProxyFromClient :: "('ef, 'nf) Client \<Rightarrow> 'p"
  isCertVerificationDisabledForHost :: "('ef, 'nf) Client \<Rightarrow> string \<Rightarrow> bool"
  getRootCAsForHost :: "('ef, 'nf) Client \<Rightarrow> string \<Rightarrow> 'ca option"

text \<open>The state: the \<^verbatim>\<open>Client\<close> and the heap of allocated \<^verbatim>\<open>http.Client\<close> objects.\<close>

type_synonym ('ef, 'nf, 'p, 'ca) state = "('ef, 'nf) Client \<times> ('p, 'ca) http_Client list"

definition httpClient ::
  "('ef, 'nf, 'p, 'ca) helpers \<Rightarrow> string \<Rightarrow> ('ef, 'nf, 'p, 'ca) state
     \<Rightarrow> nat \<times> ('ef, 'nf, 'p, 'ca) state"
where
  "httpClient x host st =
     (let (c0, heap) = st;
          c1 = (if gitEnv c0 = None then c0\<lparr>gitEnv := Some (testEnv_env Map.empty)\<rparr> else c0);
          c2 = (if osEnv c1 = None then c1\<lparr>osEnv := Some (testEnv_env Map.empty)\<rparr> else c1);
          c = (if hostClients c2 = None then c2\<lparr>hostClients := Some Map.empty\<rparr> else c2);
          m = (case hostClients c of None \<Rightarrow> Map.empty | Some m \<Rightarrow> m)
      in case m host of
           Some client \<Rightarrow> (client, (c, heap))
         | None \<Rightarrow>
             (let concurrentTransfers =
                    (if ConcurrentTransfers c <s 1 then 3 else ConcurrentTransfers c);
                  dialtime = (if DialTimeout c <s 1 then 30 else DialTimeout c);
                  keepalivetime = (if KeepaliveTimeout c <s 1 then 1800 else KeepaliveTimeout c);
                  tlstime = (if TLSTimeout c <s 1 then 30 else TLSTimeout c);
                  tr = \<lparr>Proxy = ProxyFromClient x c,
                        Dial = \<lparr>Timeout = dialtime * Second, KeepAlive = keepalivetime * Second\<rparr>,
                        TLSHandshakeTimeout = tlstime * Second,
                        MaxIdleConnsPerHost = concurrentTransfers,
                        TLSClientConfig = \<lparr>InsecureSkipVerify = False, RootCAs = None\<rparr>\<rparr>;
                  tr1 = (if isCertVerificationDisabledForHost x c host
                         then tr\<lparr>TLSClientConfig := (TLSClientConfig tr)\<lparr>InsecureSkipVerify := True\<rparr>\<rparr>
                         else tr\<lparr>TLSClientConfig :=
                                  (TLSClientConfig tr)\<lparr>RootCAs := getRootCAsForHost x c host\<rparr>\<rparr>);
                  httpClient = length heap
              in (httpClient,
                  (c\<lparr>hostClients := Some (m(host \<mapsto> httpClient))\<rparr>,
                   heap @ [\<lparr>Transport = tr1\<rparr>]))))"

text \<open>
  \<^verbatim>\<open>(*http.Client).Do\<close> is the Go library's and \<^verbatim>\<open>handleResponse\<close> is defined in another
  file of the package: both are parameters. They act on the world outside the client (the
  network, the response objects), of type \<open>'w\<close>; \<open>'r\<close> is the type of pointers to
  responses, nil included.
\<close>

definition Do ::
  "('ef, 'nf, 'p, 'ca) helpers
     \<Rightarrow> (nat \<Rightarrow> ('p, 'ca) http_Client list \<Rightarrow> request \<Rightarrow> 'w \<Rightarrow> ('r \<times> error option) \<times> 'w)
     \<Rightarrow> (('ef, 'nf) Client \<Rightarrow> 'r \<Rightarrow> 'w \<Rightarrow> error option \<times> 'w)
     \<Rightarrow> request \<Rightarrow> ('ef, 'nf, 'p, 'ca) state \<times> 'w
     \<Rightarrow> ('r \<times> error option) \<times> ('ef, 'nf, 'p, 'ca) state \<times> 'w"
where
  "Do x http_Client_Do handleResponse req sw =
     (let (st, w) = sw;
          (client, st1) = httpClient x (Host req) st;
          ((res, err), w1) = http_Client_Do client (snd st1) req w
      in if err \<noteq> None then ((res, err), st1, w1)
         else (let (err1, w2) = handleResponse (fst st1) res w1
               in ((res, err1), st1, w2)))"

text \<open>The calls \<^verbatim>\<open>httpClient\<close> for the hosts of a list, one after the other.\<close>

fun lookups ::
  "('ef, 'nf, 'p, 'ca) helpers \<Rightarrow> string list \<Rightarrow> ('ef, 'nf, 'p, 'ca) state
     \<Rightarrow> nat list \<times> ('ef, 'nf, 'p, 'ca) state"
where
  "lookups x [] st = ([], st)"
| "lookups x (host # hosts) st =
     (let (client, st1) = httpClient x host st;
          (clients, st2) = lookups x hosts st1
      in (client # clients, st2))"

definition cache :: "('ef, 'nf) Client \<Rightarrow> (string \<rightharpoonup> nat)" where
  "cache c = (case hostClients c of None \<Rightarrow> Map.empty | Some m \<Rightarrow> m)"

section \<open>Properties\<close>

subsection \<open>Facts about the environment\<close>

lemma testEnv_Get_fst: "fst (testEnv_Get e key) = (case e key of None \<Rightarrow> [] | Some v \<Rightarrow> v)"
  by (simp add: testEnv_Get_def split: option.splits)

lemma testEnv_env_sel:
  "env_Get (testEnv_env e) = testEnv_Get e"
  "env_Int (testEnv_env e) = testEnv_Int e"
  "env_Bool (testEnv_env e) = testEnv_Bool e"
  "env_All (testEnv_env e) = testEnv_All e"
  by (simp_all add: testEnv_env_def)

lemmas ToLower_eval = ToLower_def toLower_char_def char_of_def bit_0

text \<open>
  C5. \<^verbatim>\<open>Bool\<close> of \<^verbatim>\<open>testEnv\<close> returns the default when the stored value is absent or
  empty, true when the lowered value is one of true, 1, on, yes, t, false when it is one
  of false, 0, off, no, f, and false for every other non-empty value; with the stored value
  bogus and the default true it returns false.
\<close>

theorem testEnv_Bool_cases:
  "(e key = None \<or> e key = Some [] \<longrightarrow> testEnv_Bool e key def = def)
   \<and> (e key = Some s \<and> ToLower s \<in> {''true'', ''1'', ''on'', ''yes'', ''t''}
        \<longrightarrow> testEnv_Bool e key def = True)
   \<and> (e key = Some s \<and> ToLower s \<in> {''false'', ''0'', ''off'', ''no'', ''f''}
        \<longrightarrow> testEnv_Bool e key def = False)
   \<and> (e key = Some s \<and> s \<noteq> []
        \<and> ToLower s \<notin> {''true'', ''1'', ''on'', ''yes'', ''t''}
        \<and> ToLower s \<notin> {''false'', ''0'', ''off'', ''no'', ''f''}
        \<longrightarrow> testEnv_Bool e key def = False)
   \<and> testEnv_Bool (map_of [(''x'', ''bogus'')]) ''x'' True = False"
proof -
  have absent: "e key = None \<or> e key = Some [] \<longrightarrow> testEnv_Bool e key def = def"
    by (auto simp: testEnv_Bool_def testEnv_Get_fst)
  have nonempty: "s \<noteq> []" if "ToLower s \<in> {''true'', ''1'', ''on'', ''yes'', ''t''}
      \<or> ToLower s \<in> {''false'', ''0'', ''off'', ''no'', ''f''}"
    using that by (auto simp: ToLower_def)
  have yes: "e key = Some s \<and> ToLower s \<in> {''true'', ''1'', ''on'', ''yes'', ''t''}
      \<longrightarrow> testEnv_Bool e key def = True"
    using nonempty by (auto simp: testEnv_Bool_def testEnv_Get_fst)
  have no: "e key = Some s \<and> ToLower s \<in> {''false'', ''0'', ''off'', ''no'', ''f''}
      \<longrightarrow> testEnv_Bool e key def = False"
    using nonempty by (auto simp: testEnv_Bool_def testEnv_Get_fst)
  have other: "e key = Some s \<and> s \<noteq> []
        \<and> ToLower s \<notin> {''true'', ''1'', ''on'', ''yes'', ''t''}
        \<and> ToLower s \<notin> {''false'', ''0'', ''off'', ''no'', ''f''}
        \<longrightarrow> testEnv_Bool e key def = False"
    by (simp add: testEnv_Bool_def testEnv_Get_fst)
  have bogus: "testEnv_Bool (map_of [(''x'', ''bogus'')]) ''x'' True = False"
    by (simp add: testEnv_Bool_def testEnv_Get_fst ToLower_eval)
  from absent yes no other bogus show ?thesis by blast
qed

theorem testEnv_Bool_cases_witness:
  "testEnv_Bool (map_of []) ''x'' True = True
   \<and> testEnv_Bool (map_of [(''x'', '''')]) ''x'' True = True
   \<and> testEnv_Bool (map_of [(''x'', ''YES'')]) ''x'' False = True
   \<and> testEnv_Bool (map_of [(''x'', ''No'')]) ''x'' True = False
   \<and> testEnv_Bool (map_of [(''x'', ''2'')]) ''x'' True = False"
proof -
  have l1: "ToLower ''YES'' = ''yes''" and l2: "ToLower ''No'' = ''no''"
    and l3: "ToLower ''2'' = ''2''"
    by (simp_all add: ToLower_eval)
  show ?thesis
    using testEnv_Bool_cases [where e = "map_of []" and key = "''x''" and def = True and s = "[]"]
      testEnv_Bool_cases [where e = "map_of [(''x'', [])]" and key = "''x''" and def = True and s = "[]"]
      testEnv_Bool_cases [where e = "map_of [(''x'', ''YES'')]" and key = "''x''" and def = False and s = "''YES''"]
      testEnv_Bool_cases [where e = "map_of [(''x'', ''No'')]" and key = "''x''" and def = True and s = "''No''"]
      testEnv_Bool_cases [where e = "map_of [(''x'', ''2'')]" and key = "''x''" and def = True and s = "''2''"]
    by (simp add: l1 l2 l3)
qed

subsection \<open>Proxy resolution\<close>

lemma getProxyServers_https:
  "fst (getProxyServers os_env git_env) =
     (if prefix ''https://'' (fst (env_Get git_env ''http.proxy''))
      then fst (env_Get git_env ''http.proxy'')
      else if fst (env_Get os_env ''HTTPS_PROXY'') \<noteq> [] then fst (env_Get os_env ''HTTPS_PROXY'')
      else fst (env_Get os_env ''https_proxy''))"
  by (auto simp: getProxyServers_def HasPrefix_def Let_def)

lemma getProxyServers_http:
  "fst (snd (getProxyServers os_env git_env)) =
     (if fst (env_Get git_env ''http.proxy'') \<noteq> [] then fst (env_Get git_env ''http.proxy'')
      else if fst (env_Get os_env ''HTTP_PROXY'') \<noteq> [] then fst (env_Get os_env ''HTTP_PROXY'')
      else fst (env_Get os_env ''http_proxy''))"
  by (simp add: getProxyServers_def Let_def)

lemma getProxyServers_no:
  "snd (snd (getProxyServers os_env git_env)) =
     (if fst (env_Get os_env ''NO_PROXY'') \<noteq> [] then fst (env_Get os_env ''NO_PROXY'')
      else fst (env_Get os_env ''no_proxy''))"
  by (simp add: getProxyServers_def Let_def)

lemma testEnv_env_Get_fst:
  "fst (env_Get (testEnv_env e) key) = (case e key of None \<Rightarrow> [] | Some v \<Rightarrow> v)"
  by (simp add: testEnv_env_sel testEnv_Get_fst)

text \<open>
  C2. The resolved HTTPS proxy is the config value of \<^verbatim>\<open>http.proxy\<close> when that value
  begins with \<^verbatim>\<open>https://\<close>; otherwise it is the process value of \<^verbatim>\<open>HTTPS_PROXY\<close> when
  that is not empty, and otherwise the process value of \<^verbatim>\<open>https_proxy\<close>. With the config
  \<^verbatim>\<open>http.proxy = https://proxy.example\<close> and the process \<^verbatim>\<open>HTTPS_PROXY = https://other\<close>
  it is \<^verbatim>\<open>https://proxy.example\<close>.
\<close>

theorem getProxyServers_https_precedence:
  "(prefix ''https://'' (fst (env_Get git_env ''http.proxy''))
      \<longrightarrow> fst (getProxyServers os_env git_env) = fst (env_Get git_env ''http.proxy''))
   \<and> (\<not> prefix ''https://'' (fst (env_Get git_env ''http.proxy''))
        \<and> fst (env_Get os_env ''HTTPS_PROXY'') \<noteq> []
      \<longrightarrow> fst (getProxyServers os_env git_env) = fst (env_Get os_env ''HTTPS_PROXY''))
   \<and> (\<not> prefix ''https://'' (fst (env_Get git_env ''http.proxy''))
        \<and> fst (env_Get os_env ''HTTPS_PROXY'') = []
      \<longrightarrow> fst (getProxyServers os_env git_env) = fst (env_Get os_env ''https_proxy''))
   \<and> fst (getProxyServers (testEnv_env (map_of [(''HTTPS_PROXY'', ''https://other'')]))
            (testEnv_env (map_of [(''http.proxy'', ''https://proxy.example'')])))
       = ''https://proxy.example''"
  by (simp add: getProxyServers_https testEnv_env_Get_fst)

theorem getProxyServers_https_precedence_witness:
  "fst (getProxyServers (testEnv_env (map_of [(''HTTPS_PROXY'', ''https://other'')]))
          (testEnv_env (map_of [(''http.proxy'', ''https://proxy.example'')])))
     = ''https://proxy.example''
   \<and> fst (getProxyServers (testEnv_env (map_of [(''HTTPS_PROXY'', ''https://other'')]))
          (testEnv_env (map_of [(''http.proxy'', ''http://proxy.example'')])))
     = ''https://other''
   \<and> fst (getProxyServers (testEnv_env (map_of [(''https_proxy'', ''https://lower'')]))
          (testEnv_env (map_of [])))
     = ''https://lower''"
  using getProxyServers_https_precedence
      [where os_env = "testEnv_env (map_of [(''HTTPS_PROXY'', ''https://other'')])"
         and git_env = "testEnv_env (map_of [(''http.proxy'', ''https://proxy.example'')])"]
    getProxyServers_https_precedence
      [where os_env = "testEnv_env (map_of [(''HTTPS_PROXY'', ''https://other'')])"
         and git_env = "testEnv_env (map_of [(''http.proxy'', ''http://proxy.example'')])"]
    getProxyServers_https_precedence
      [where os_env = "testEnv_env (map_of [(''https_proxy'', ''https://lower'')])"
         and git_env = "testEnv_env (map_of [])"]
  by (simp add: testEnv_env_Get_fst)

text \<open>
  C3, as stated: the resolved HTTP proxy and the resolved NO_PROXY value depend on the
  process-level environment only. It fails for the HTTP proxy: with an empty process-level
  environment, the config \<^verbatim>\<open>http.proxy = http://proxy.example\<close> gives that HTTP proxy and
  an empty config gives none.
\<close>

theorem getProxyServers_http_config_counterexample:
  "fst (snd (getProxyServers (testEnv_env (map_of []))
               (testEnv_env (map_of [(''http.proxy'', ''http://proxy.example'')]))))
     \<noteq> fst (snd (getProxyServers (testEnv_env (map_of [])) (testEnv_env (map_of []))))"
  by (simp add: getProxyServers_http testEnv_env_Get_fst)

text \<open>
  C3, amended. The resolved NO_PROXY value depends on the process-level environment only.
  The resolved HTTP proxy depends on the config-level environment through the value of
  \<^verbatim>\<open>http.proxy\<close> only: two config-level environments with the same value of \<^verbatim>\<open>http.proxy\<close>,
  paired with the same process-level environment, give the same HTTP proxy; and when the
  config value of \<^verbatim>\<open>http.proxy\<close> is empty, the HTTP proxy is the process value of
  \<^verbatim>\<open>HTTP_PROXY\<close> when that is not empty and the process value of \<^verbatim>\<open>http_proxy\<close> otherwise.
\<close>

theorem getProxyServers_http_no_proxy_sources:
  "snd (snd (getProxyServers os_env git_env)) = snd (snd (getProxyServers os_env git_env'))
   \<and> (fst (env_Get git_env ''http.proxy'') = fst (env_Get git_env' ''http.proxy'')
      \<longrightarrow> fst (snd (getProxyServers os_env git_env)) = fst (snd (getProxyServers os_env git_env')))
   \<and> (fst (env_Get git_env ''http.proxy'') = []
      \<longrightarrow> fst (snd (getProxyServers os_env git_env)) =
          (if fst (env_Get os_env ''HTTP_PROXY'') \<noteq> [] then fst (env_Get os_env ''HTTP_PROXY'')
           else fst (env_Get os_env ''http_proxy'')))"
  by (simp add: getProxyServers_http getProxyServers_no)

theorem getProxyServers_http_no_proxy_sources_witness:
  "snd (snd (getProxyServers (testEnv_env (map_of [(''http_proxy'', ''http://lower''), (''NO_PROXY'', ''localhost'')]))
               (testEnv_env (map_of [(''lfs.url'', ''a'')]))))
     = snd (snd (getProxyServers (testEnv_env (map_of [(''http_proxy'', ''http://lower''), (''NO_PROXY'', ''localhost'')]))
               (testEnv_env (map_of [(''http.sslverify'', ''false'')]))))
   \<and> fst (snd (getProxyServers (testEnv_env (map_of [(''http_proxy'', ''http://lower''), (''NO_PROXY'', ''localhost'')]))
               (testEnv_env (map_of [(''lfs.url'', ''a'')]))))
     = fst (snd (getProxyServers (testEnv_env (map_of [(''http_proxy'', ''http://lower''), (''NO_PROXY'', ''localhost'')]))
               (testEnv_env (map_of [(''http.sslverify'', ''false'')]))))
   \<and> fst (snd (getProxyServers (testEnv_env (map_of [(''http_proxy'', ''http://lower''), (''NO_PROXY'', ''localhost'')]))
               (testEnv_env (map_of [(''lfs.url'', ''a'')]))))
     = ''http://lower''"
  using getProxyServers_http_no_proxy_sources
      [where os_env = "testEnv_env (map_of [(''http_proxy'', ''http://lower''), (''NO_PROXY'', ''localhost'')])"
         and git_env = "testEnv_env (map_of [(''lfs.url'', ''a'')])"
         and git_env' = "testEnv_env (map_of [(''http.sslverify'', ''false'')])"]
  by (auto simp: testEnv_env_Get_fst)

text \<open>
  C10. When the config value of \<^verbatim>\<open>http.proxy\<close> begins with \<^verbatim>\<open>https://\<close>, that string is
  both the HTTPS proxy and the HTTP proxy, whatever the process-level environment holds:
  \<^verbatim>\<open>HTTPS_PROXY\<close>, \<^verbatim>\<open>https_proxy\<close>, \<^verbatim>\<open>HTTP_PROXY\<close> and \<^verbatim>\<open>http_proxy\<close> are ignored.
\<close>

theorem getProxyServers_config_shadows_both:
  "prefix ''https://'' (fst (env_Get git_env ''http.proxy'')) \<Longrightarrow>
     fst (getProxyServers os_env git_env) = fst (env_Get git_env ''http.proxy'')
     \<and> fst (snd (getProxyServers os_env git_env)) = fst (env_Get git_env ''http.proxy'')
     \<and> fst (getProxyServers os_env' git_env) = fst (getProxyServers os_env git_env)
     \<and> fst (snd (getProxyServers os_env' git_env)) = fst (snd (getProxyServers os_env git_env))"
proof -
  assume p: "prefix ''https://'' (fst (env_Get git_env ''http.proxy''))"
  then have ne: "fst (env_Get git_env ''http.proxy'') \<noteq> []"
    by auto
  show ?thesis
    using p ne by (simp add: getProxyServers_https getProxyServers_http)
qed

theorem getProxyServers_config_shadows_both_witness:
  "fst (getProxyServers
          (testEnv_env (map_of [(''HTTPS_PROXY'', ''https://a''), (''https_proxy'', ''https://b''),
                                (''HTTP_PROXY'', ''http://c''), (''http_proxy'', ''http://d'')]))
          (testEnv_env (map_of [(''http.proxy'', ''https://proxy.example'')])))
     = ''https://proxy.example''
   \<and> fst (snd (getProxyServers
          (testEnv_env (map_of [(''HTTPS_PROXY'', ''https://a''), (''https_proxy'', ''https://b''),
                                (''HTTP_PROXY'', ''http://c''), (''http_proxy'', ''http://d'')]))
          (testEnv_env (map_of [(''http.proxy'', ''https://proxy.example'')]))))
     = ''https://proxy.example''"
proof -
  have h: "prefix ''https://''
      (fst (env_Get (testEnv_env (map_of [(''http.proxy'', ''https://proxy.example'')])) ''http.proxy''))"
    by (simp add: testEnv_env_Get_fst)
  show ?thesis
    using getProxyServers_config_shadows_both [OF h,
        where os_env = "testEnv_env (map_of [(''HTTPS_PROXY'', ''https://a''), (''https_proxy'', ''https://b''),
                                (''HTTP_PROXY'', ''http://c''), (''http_proxy'', ''http://d'')])"]
    by (simp add: testEnv_env_Get_fst)
qed

subsection \<open>Client construction\<close>

lemma NewClient_Inr:
  "ParseNetrc (case os_env0 of None \<Rightarrow> testEnv_env Map.empty | Some e \<Rightarrow> e) = Inr netrc \<Longrightarrow>
   \<exists>c. NewClient ParseNetrc NewEndpointFinder os_env0 git_env0 = Inr c"
  by (simp add: NewClient_def Let_def split: prod.splits)

lemma NewClient_fields:
  assumes "NewClient ParseNetrc NewEndpointFinder os_env0 git_env0 = Inr c"
  shows "SkipSSLVerify c =
           (\<not> env_Bool (case git_env0 of None \<Rightarrow> testEnv_env Map.empty | Some e \<Rightarrow> e)
                ''http.sslverify'' True
            \<or> env_Bool (case os_env0 of None \<Rightarrow> testEnv_env Map.empty | Some e \<Rightarrow> e)
                ''GIT_SSL_NO_VERIFY'' False)"
    and "DialTimeout c =
           env_Int (case git_env0 of None \<Rightarrow> testEnv_env Map.empty | Some e \<Rightarrow> e)
             ''lfs.dialtimeout'' 0"
    and "KeepaliveTimeout c =
           env_Int (case git_env0 of None \<Rightarrow> testEnv_env Map.empty | Some e \<Rightarrow> e)
             ''lfs.keepalive'' 0"
    and "TLSTimeout c =
           env_Int (case git_env0 of None \<Rightarrow> testEnv_env Map.empty | Some e \<Rightarrow> e)
             ''lfs.tlstimeout'' 0"
    and "ConcurrentTransfers c =
           env_Int (case git_env0 of None \<Rightarrow> testEnv_env Map.empty | Some e \<Rightarrow> e)
             ''lfs.concurrenttransfers'' 0"
    and "hostClients c = None"
  using assms
  by (auto simp: NewClient_def Let_def split: sum.splits prod.splits)

lemma NewClient_Netrc:
  "NewClient ParseNetrc NewEndpointFinder os_env0 git_env0 = Inr c \<Longrightarrow>
   ParseNetrc (case os_env0 of None \<Rightarrow> testEnv_env Map.empty | Some e \<Rightarrow> e) = Inr (Netrc c)"
  by (auto simp: NewClient_def Let_def split: sum.splits prod.splits)

lemma NewClient_Inl:
  "NewClient ParseNetrc NewEndpointFinder os_env0 git_env0 = Inl err \<Longrightarrow>
   ParseNetrc (case os_env0 of None \<Rightarrow> testEnv_env Map.empty | Some e \<Rightarrow> e) = Inl err"
  by (auto simp: NewClient_def Let_def split: sum.splits prod.splits)

text \<open>
  C4. \<^verbatim>\<open>NewClient\<close> fails only with the error of the netrc parser; the client it returns
  has \<^verbatim>\<open>SkipSSLVerify\<close> equal to: not (config \<^verbatim>\<open>Bool\<close> of \<^verbatim>\<open>http.sslverify\<close>, default
  true) or (process \<^verbatim>\<open>Bool\<close> of \<^verbatim>\<open>GIT_SSL_NO_VERIFY\<close>, default false). An absent
  environment is the empty \<^verbatim>\<open>testEnv\<close>.
\<close>

theorem NewClient_SkipSSLVerify:
  "case NewClient ParseNetrc NewEndpointFinder os_env0 git_env0 of
     Inl err \<Rightarrow>
       ParseNetrc (case os_env0 of None \<Rightarrow> testEnv_env Map.empty | Some e \<Rightarrow> e) = Inl err
   | Inr c \<Rightarrow>
       ParseNetrc (case os_env0 of None \<Rightarrow> testEnv_env Map.empty | Some e \<Rightarrow> e) = Inr (Netrc c)
       \<and> SkipSSLVerify c =
         (\<not> env_Bool (case git_env0 of None \<Rightarrow> testEnv_env Map.empty | Some e \<Rightarrow> e)
              ''http.sslverify'' True
          \<or> env_Bool (case os_env0 of None \<Rightarrow> testEnv_env Map.empty | Some e \<Rightarrow> e)
              ''GIT_SSL_NO_VERIFY'' False)"
proof (cases "NewClient ParseNetrc NewEndpointFinder os_env0 git_env0")
  case (Inl err)
  then show ?thesis by (simp add: NewClient_Inl)
next
  case (Inr c)
  then show ?thesis by (simp add: NewClient_fields(1) NewClient_Netrc)
qed

lemma testEnv_env_Bool:
  "env_Bool (testEnv_env e) key def =
     (case e key of None \<Rightarrow> def
      | Some s \<Rightarrow> if s = [] then def else ToLower s \<in> {''true'', ''1'', ''on'', ''yes'', ''t''})"
  by (cases "e key") (auto simp: testEnv_env_sel testEnv_Bool_def testEnv_Get_fst ToLower_def)

theorem NewClient_SkipSSLVerify_witness:
  "(case NewClient (\<lambda>e. Inr (0::nat)) (\<lambda>e. (0::nat)) (Some (testEnv_env (map_of [])))
           (Some (testEnv_env (map_of [(''http.sslverify'', ''false'')]))) of
      Inl err \<Rightarrow> False | Inr c \<Rightarrow> SkipSSLVerify c = True)
   \<and> (case NewClient (\<lambda>e. Inr (0::nat)) (\<lambda>e. (0::nat))
           (Some (testEnv_env (map_of [(''GIT_SSL_NO_VERIFY'', ''1'')]))) None of
      Inl err \<Rightarrow> False | Inr c \<Rightarrow> SkipSSLVerify c = True)
   \<and> (case NewClient (\<lambda>e. Inr (0::nat)) (\<lambda>e. (0::nat)) None
           (Some (testEnv_env (map_of [(''http.sslverify'', ''true'')]))) of
      Inl err \<Rightarrow> False | Inr c \<Rightarrow> SkipSSLVerify c = False)"
proof -
  have l: "ToLower ''false'' = ''false''" "ToLower ''1'' = ''1''" "ToLower ''true'' = ''true''"
    by (simp_all add: ToLower_eval)
  have b: "env_Bool (testEnv_env (map_of [(''http.sslverify'', ''false'')])) ''http.sslverify'' True = False"
    "env_Bool (testEnv_env (map_of [])) ''GIT_SSL_NO_VERIFY'' False = False"
    "env_Bool (testEnv_env (map_of [(''GIT_SSL_NO_VERIFY'', ''1'')])) ''GIT_SSL_NO_VERIFY'' False = True"
    "env_Bool (testEnv_env (map_of [(''http.sslverify'', ''true'')])) ''http.sslverify'' True = True"
    "env_Bool (testEnv_env Map.empty) ''GIT_SSL_NO_VERIFY'' False = False"
    "env_Bool (testEnv_env Map.empty) ''http.sslverify'' True = True"
    by (simp_all add: testEnv_env_Bool l)
  have 1: "case NewClient (\<lambda>e. Inr (0::nat)) (\<lambda>e. (0::nat)) (Some (testEnv_env (map_of [])))
           (Some (testEnv_env (map_of [(''http.sslverify'', ''false'')]))) of
      Inl err \<Rightarrow> False | Inr c \<Rightarrow> SkipSSLVerify c = True"
    using NewClient_SkipSSLVerify [where ParseNetrc = "\<lambda>e. Inr (0::nat)"
        and NewEndpointFinder = "\<lambda>e. (0::nat)"
        and ?os_env0.0 = "Some (testEnv_env (map_of []))"
        and ?git_env0.0 = "Some (testEnv_env (map_of [(''http.sslverify'', ''false'')]))"]
    by (cases "NewClient (\<lambda>e. Inr (0::nat)) (\<lambda>e. (0::nat)) (Some (testEnv_env (map_of [])))
           (Some (testEnv_env (map_of [(''http.sslverify'', ''false'')])))")
      (simp_all only: sum.case option.case b, simp_all)
  have 2: "case NewClient (\<lambda>e. Inr (0::nat)) (\<lambda>e. (0::nat))
           (Some (testEnv_env (map_of [(''GIT_SSL_NO_VERIFY'', ''1'')]))) None of
      Inl err \<Rightarrow> False | Inr c \<Rightarrow> SkipSSLVerify c = True"
    using NewClient_SkipSSLVerify [where ParseNetrc = "\<lambda>e. Inr (0::nat)"
        and NewEndpointFinder = "\<lambda>e. (0::nat)"
        and ?os_env0.0 = "Some (testEnv_env (map_of [(''GIT_SSL_NO_VERIFY'', ''1'')]))"
        and ?git_env0.0 = None]
    by (cases "NewClient (\<lambda>e. Inr (0::nat)) (\<lambda>e. (0::nat))
           (Some (testEnv_env (map_of [(''GIT_SSL_NO_VERIFY'', ''1'')]))) None")
      (simp_all only: sum.case option.case b, simp_all)
  have 3: "case NewClient (\<lambda>e. Inr (0::nat)) (\<lambda>e. (0::nat)) None
           (Some (testEnv_env (map_of [(''http.sslverify'', ''true'')]))) of
      Inl err \<Rightarrow> False | Inr c \<Rightarrow> SkipSSLVerify c = False"
    using NewClient_SkipSSLVerify [where ParseNetrc = "\<lambda>e. Inr (0::nat)"
        and NewEndpointFinder = "\<lambda>e. (0::nat)"
        and ?os_env0.0 = None
        and ?git_env0.0 = "Some (testEnv_env (map_of [(''http.sslverify'', ''true'')]))"]
    by (cases "NewClient (\<lambda>e. Inr (0::nat)) (\<lambda>e. (0::nat)) None
           (Some (testEnv_env (map_of [(''http.sslverify'', ''true'')])))")
      (simp_all only: sum.case option.case b, simp_all)
  from 1 2 3 show ?thesis by blast
qed

subsection \<open>The host-client cache\<close>

lemma sle_0_iff_sless_1: "(n \<le>s 0) = (n <s (1 :: go_int))"
  by (simp add: word_sle_eq word_sless_alt, arith)

lemma httpClient_hit:
  assumes "cache c host = Some a"
  shows "fst (httpClient x host (c, heap)) = a"
    and "snd (snd (httpClient x host (c, heap))) = heap"
    and "cache (fst (snd (httpClient x host (c, heap)))) = cache c"
  using assms by (auto simp: httpClient_def cache_def Let_def split: option.splits)

lemma httpClient_miss:
  assumes "cache c host = None"
  shows "fst (httpClient x host (c, heap)) = length heap"
    and "length (snd (snd (httpClient x host (c, heap)))) = Suc (length heap)"
    and "take (length heap) (snd (snd (httpClient x host (c, heap)))) = heap"
    and "cache (fst (snd (httpClient x host (c, heap)))) = (cache c)(host \<mapsto> length heap)"
  using assms by (auto simp: httpClient_def cache_def Let_def split: option.splits)

lemma httpClient_settings:
  "DialTimeout (fst (snd (httpClient x host (c, heap)))) = DialTimeout c"
  "KeepaliveTimeout (fst (snd (httpClient x host (c, heap)))) = KeepaliveTimeout c"
  "TLSTimeout (fst (snd (httpClient x host (c, heap)))) = TLSTimeout c"
  "ConcurrentTransfers (fst (snd (httpClient x host (c, heap)))) = ConcurrentTransfers c"
  by (auto simp: httpClient_def Let_def split: option.splits)

lemma httpClient_built:
  assumes "cache c host = None"
  shows "Timeout (Dial (Transport (snd (snd (httpClient x host (c, heap))) ! length heap))) =
           (if DialTimeout c <s 1 then 30 else DialTimeout c) * Second"
    and "KeepAlive (Dial (Transport (snd (snd (httpClient x host (c, heap))) ! length heap))) =
           (if KeepaliveTimeout c <s 1 then 1800 else KeepaliveTimeout c) * Second"
    and "TLSHandshakeTimeout (Transport (snd (snd (httpClient x host (c, heap))) ! length heap)) =
           (if TLSTimeout c <s 1 then 30 else TLSTimeout c) * Second"
    and "MaxIdleConnsPerHost (Transport (snd (snd (httpClient x host (c, heap))) ! length heap)) =
           (if ConcurrentTransfers c <s 1 then 3 else ConcurrentTransfers c)"
  using assms by (auto simp: httpClient_def cache_def Let_def split: option.splits)

lemma testEnv_env_Int_unset:
  "e key = None \<Longrightarrow> env_Int (testEnv_env e) key def = def"
  by (simp add: testEnv_env_sel testEnv_Int_def testEnv_Get_fst)

text \<open>
  C6. When \<^verbatim>\<open>httpClient\<close> builds the client of a host that is not yet cached, each of
  \<^verbatim>\<open>DialTimeout\<close>, \<^verbatim>\<open>KeepaliveTimeout\<close>, \<^verbatim>\<open>TLSTimeout\<close>, \<^verbatim>\<open>ConcurrentTransfers\<close> that is
  at most 0 is replaced in the transport by its default: dial timeout 30 s, keepalive
  1800 s, TLS handshake timeout 30 s, 3 idle connections per host. The fields stored in
  the \<^verbatim>\<open>Client\<close> stay as they were. \<^verbatim>\<open>NewClient\<close> stores what \<^verbatim>\<open>Int\<close> of the config
  gives with the default 0, which for a \<^verbatim>\<open>testEnv\<close> is 0 when the key is not set.
\<close>

theorem httpClient_defaults:
  assumes "cache c host = None"
      and "httpClient x host (c, heap) = (a, (c', heap'))"
  shows "a = length heap \<and> length heap' = Suc (length heap)
    \<and> (DialTimeout c \<le>s 0 \<longrightarrow> Timeout (Dial (Transport (heap' ! a))) = 30 * Second)
    \<and> (KeepaliveTimeout c \<le>s 0 \<longrightarrow> KeepAlive (Dial (Transport (heap' ! a))) = 1800 * Second)
    \<and> (TLSTimeout c \<le>s 0 \<longrightarrow> TLSHandshakeTimeout (Transport (heap' ! a)) = 30 * Second)
    \<and> (ConcurrentTransfers c \<le>s 0 \<longrightarrow> MaxIdleConnsPerHost (Transport (heap' ! a)) = 3)
    \<and> DialTimeout c' = DialTimeout c \<and> KeepaliveTimeout c' = KeepaliveTimeout c
    \<and> TLSTimeout c' = TLSTimeout c \<and> ConcurrentTransfers c' = ConcurrentTransfers c
    \<and> (NewClient ParseNetrc NewEndpointFinder os_env0 git_env0 = Inr c0 \<longrightarrow>
         DialTimeout c0 =
           env_Int (case git_env0 of None \<Rightarrow> testEnv_env Map.empty | Some e \<Rightarrow> e)
             ''lfs.dialtimeout'' 0
         \<and> KeepaliveTimeout c0 =
           env_Int (case git_env0 of None \<Rightarrow> testEnv_env Map.empty | Some e \<Rightarrow> e)
             ''lfs.keepalive'' 0
         \<and> TLSTimeout c0 =
           env_Int (case git_env0 of None \<Rightarrow> testEnv_env Map.empty | Some e \<Rightarrow> e)
             ''lfs.tlstimeout'' 0
         \<and> ConcurrentTransfers c0 =
           env_Int (case git_env0 of None \<Rightarrow> testEnv_env Map.empty | Some e \<Rightarrow> e)
             ''lfs.concurrenttransfers'' 0)
    \<and> (e key = None \<longrightarrow> env_Int (testEnv_env e) key 0 = 0)"
proof -
  have a: "a = length heap"
    using httpClient_miss(1) [OF assms(1), of x heap] assms(2) by simp
  have h: "heap' = snd (snd (httpClient x host (c, heap)))"
    and c': "c' = fst (snd (httpClient x host (c, heap)))"
    using assms(2) by simp_all
  have len: "length heap' = Suc (length heap)"
    unfolding h by (rule httpClient_miss(2) [OF assms(1)])
  have dial: "DialTimeout c \<le>s 0 \<longrightarrow> Timeout (Dial (Transport (heap' ! a))) = 30 * Second"
    unfolding a h by (simp add: httpClient_built(1) [OF assms(1)] sle_0_iff_sless_1)
  have keep: "KeepaliveTimeout c \<le>s 0 \<longrightarrow> KeepAlive (Dial (Transport (heap' ! a))) = 1800 * Second"
    unfolding a h by (simp add: httpClient_built(2) [OF assms(1)] sle_0_iff_sless_1)
  have tls: "TLSTimeout c \<le>s 0 \<longrightarrow> TLSHandshakeTimeout (Transport (heap' ! a)) = 30 * Second"
    unfolding a h by (simp add: httpClient_built(3) [OF assms(1)] sle_0_iff_sless_1)
  have conc: "ConcurrentTransfers c \<le>s 0 \<longrightarrow> MaxIdleConnsPerHost (Transport (heap' ! a)) = 3"
    unfolding a h by (simp add: httpClient_built(4) [OF assms(1)] sle_0_iff_sless_1)
  have kept: "DialTimeout c' = DialTimeout c \<and> KeepaliveTimeout c' = KeepaliveTimeout c
    \<and> TLSTimeout c' = TLSTimeout c \<and> ConcurrentTransfers c' = ConcurrentTransfers c"
    unfolding c' by (simp add: httpClient_settings)
  have new: "NewClient ParseNetrc NewEndpointFinder os_env0 git_env0 = Inr c0 \<longrightarrow>
         DialTimeout c0 =
           env_Int (case git_env0 of None \<Rightarrow> testEnv_env Map.empty | Some e \<Rightarrow> e)
             ''lfs.dialtimeout'' 0
         \<and> KeepaliveTimeout c0 =
           env_Int (case git_env0 of None \<Rightarrow> testEnv_env Map.empty | Some e \<Rightarrow> e)
             ''lfs.keepalive'' 0
         \<and> TLSTimeout c0 =
           env_Int (case git_env0 of None \<Rightarrow> testEnv_env Map.empty | Some e \<Rightarrow> e)
             ''lfs.tlstimeout'' 0
         \<and> ConcurrentTransfers c0 =
           env_Int (case git_env0 of None \<Rightarrow> testEnv_env Map.empty | Some e \<Rightarrow> e)
             ''lfs.concurrenttransfers'' 0"
    using NewClient_fields(2-5) [of ParseNetrc NewEndpointFinder os_env0 git_env0 c0] by blast
  have unset: "e key = None \<longrightarrow> env_Int (testEnv_env e) key 0 = 0"
    by (simp add: testEnv_env_Int_unset)
  from a len dial keep tls conc kept new unset show ?thesis by blast
qed


theorem httpClient_defaults_witness:
  "case NewClient (\<lambda>e. Inr (0::nat)) (\<lambda>e. (0::nat)) None None of
     Inl err \<Rightarrow> False
   | Inr c \<Rightarrow>
       (case httpClient
               \<lparr>ProxyFromClient = HTTPProxy, isCertVerificationDisabledForHost = (\<lambda>c host. SkipSSLVerify c),
                getRootCAsForHost = (\<lambda>c host. Some (0::nat))\<rparr> ''example.com'' (c, []) of
          (a, c', heap') \<Rightarrow>
            a = 0 \<and> length heap' = 1
            \<and> Timeout (Dial (Transport (heap' ! a))) = 30000000000
            \<and> KeepAlive (Dial (Transport (heap' ! a))) = 1800000000000
            \<and> TLSHandshakeTimeout (Transport (heap' ! a)) = 30000000000
            \<and> MaxIdleConnsPerHost (Transport (heap' ! a)) = 3
            \<and> DialTimeout c' = 0 \<and> KeepaliveTimeout c' = 0 \<and> TLSTimeout c' = 0
            \<and> ConcurrentTransfers c' = 0)"
proof -
  obtain c :: "(nat, nat) Client"
    where c: "NewClient (\<lambda>e. Inr (0::nat)) (\<lambda>e. (0::nat)) None None = Inr c"
    using NewClient_Inr [of "\<lambda>e. Inr (0::nat)" None 0 "\<lambda>e. (0::nat)" None] by auto
  have miss: "cache c ''example.com'' = None"
    using NewClient_fields(6) [OF c] by (simp add: cache_def)
  obtain a c' heap' where r: "httpClient
               \<lparr>ProxyFromClient = HTTPProxy, isCertVerificationDisabledForHost = (\<lambda>c host. SkipSSLVerify c),
                getRootCAsForHost = (\<lambda>c host. Some (0::nat))\<rparr> ''example.com'' (c, []) = (a, (c', heap'))"
    using prod_cases3 by blast
  have z: "env_Int (testEnv_env Map.empty) key 0 = 0" for key
    by (simp add: testEnv_env_Int_unset)
  have "a = 0 \<and> length heap' = 1
            \<and> Timeout (Dial (Transport (heap' ! a))) = 30000000000
            \<and> KeepAlive (Dial (Transport (heap' ! a))) = 1800000000000
            \<and> TLSHandshakeTimeout (Transport (heap' ! a)) = 30000000000
            \<and> MaxIdleConnsPerHost (Transport (heap' ! a)) = 3
            \<and> DialTimeout c' = 0 \<and> KeepaliveTimeout c' = 0 \<and> TLSTimeout c' = 0
            \<and> ConcurrentTransfers c' = 0"
    using httpClient_defaults [OF miss r, where ParseNetrc = "\<lambda>e. Inr (0::nat)"
        and NewEndpointFinder = "\<lambda>e. (0::nat)" and ?os_env0.0 = None and ?git_env0.0 = None
        and ?c0.0 = c and e = Map.empty and key = "''lfs.dialtimeout''"] c
    by (auto simp: z Second_def)
  then show ?thesis
    by (auto simp: c r)
qed

lemma httpClient_cache:
  "cache (fst (snd (httpClient x host (c, heap)))) host = Some (fst (httpClient x host (c, heap)))"
proof (cases "cache c host")
  case None
  then show ?thesis by (simp add: httpClient_miss)
next
  case (Some a)
  then show ?thesis by (simp add: httpClient_hit)
qed

lemma httpClient_cache_upd:
  "cache (fst (snd (httpClient x host (c, heap)))) =
     (cache c)(host \<mapsto> fst (httpClient x host (c, heap)))"
proof (cases "cache c host")
  case None
  then show ?thesis by (simp add: httpClient_miss)
next
  case (Some a)
  then have "(cache c)(host \<mapsto> a) = cache c" by (simp add: map_upd_triv)
  with Some show ?thesis by (simp add: httpClient_hit)
qed

lemma httpClient_heap_length:
  "length (snd (snd (httpClient x host (c, heap)))) =
     length heap + (if host \<in> dom (cache c) then 0 else 1)"
proof (cases "cache c host")
  case None
  then show ?thesis by (simp add: httpClient_miss domIff)
next
  case (Some a)
  then show ?thesis by (simp add: httpClient_hit domIff)
qed

lemma httpClient_keeps:
  assumes "cache c k = Some a"
  shows "cache (fst (snd (httpClient x host (c, heap)))) k = Some a"
proof (cases "k = host")
  case True
  with assms show ?thesis by (simp add: httpClient_hit)
next
  case False
  with assms show ?thesis by (simp add: httpClient_cache_upd)
qed

lemma lookups_Cons:
  "lookups x (host # hosts) st =
     (fst (httpClient x host st) # fst (lookups x hosts (snd (httpClient x host st))),
      snd (lookups x hosts (snd (httpClient x host st))))"
  by (simp add: case_prod_beta)

lemma lookups_length:
  "length (fst (lookups x hosts st)) = length hosts"
  by (induction hosts arbitrary: st) (simp_all add: lookups_Cons del: lookups.simps(2))

lemma lookups_keeps:
  "cache (fst st) k = Some a \<Longrightarrow> cache (fst (snd (lookups x hosts st))) k = Some a"
proof (induction hosts arbitrary: st)
  case Nil
  then show ?case by simp
next
  case (Cons host hosts)
  have "cache (fst (snd (httpClient x host st))) k = Some a"
    using httpClient_keeps [of "fst st" k a x host "snd st"] Cons.prems by simp
  then have "cache (fst (snd (lookups x hosts (snd (httpClient x host st))))) k = Some a"
    by (rule Cons.IH)
  then show ?case
    by (simp add: lookups_Cons del: lookups.simps(2))
qed

lemma lookups_cache:
  "i < length hosts \<Longrightarrow>
   cache (fst (snd (lookups x hosts st))) (hosts ! i) = Some (fst (lookups x hosts st) ! i)"
proof (induction hosts arbitrary: st i)
  case Nil
  then show ?case by simp
next
  case (Cons host hosts)
  show ?case
  proof (cases i)
    case 0
    have "cache (fst (snd (httpClient x host st))) host = Some (fst (httpClient x host st))"
      using httpClient_cache [of x host "fst st" "snd st"] by simp
    then have "cache (fst (snd (lookups x hosts (snd (httpClient x host st))))) host =
        Some (fst (httpClient x host st))"
      by (rule lookups_keeps)
    then show ?thesis
      by (simp add: 0 lookups_Cons del: lookups.simps(2))
  next
    case (Suc j)
    then have "j < length hosts" using Cons.prems by simp
    then have "cache (fst (snd (lookups x hosts (snd (httpClient x host st))))) (hosts ! j) =
        Some (fst (lookups x hosts (snd (httpClient x host st))) ! j)"
      by (rule Cons.IH)
    then show ?thesis
      by (simp add: Suc lookups_Cons del: lookups.simps(2))
  qed
qed

lemma lookups_heap_length:
  "length (snd (snd (lookups x hosts (c, heap)))) = length heap + card (set hosts - dom (cache c))"
proof (induction hosts arbitrary: c heap)
  case Nil
  then show ?case by simp
next
  case (Cons host hosts)
  obtain client c1 heap1 where h: "httpClient x host (c, heap) = (client, (c1, heap1))"
    using prod_cases3 by blast
  have d: "dom (cache c1) = insert host (dom (cache c))"
    using httpClient_cache_upd [of x host c heap] h by simp
  have l: "length heap1 = length heap + (if host \<in> dom (cache c) then 0 else 1)"
    using httpClient_heap_length [of x host c heap] h by simp
  have ih: "length (snd (snd (lookups x hosts (c1, heap1)))) =
      length heap1 + card (set hosts - dom (cache c1))"
    by (rule Cons.IH)
  have s: "set (host # hosts) - dom (cache c) =
      (if host \<in> dom (cache c) then set hosts - dom (cache c1)
       else insert host (set hosts - dom (cache c1)))"
    using d by auto
  have "card (set (host # hosts) - dom (cache c)) =
      (if host \<in> dom (cache c) then 0 else 1) + card (set hosts - dom (cache c1))"
    unfolding s using d by simp
  then show ?case
    using ih l by (simp add: h lookups_Cons del: lookups.simps(2))
qed

lemma lookups_heap_prefix:
  "take (length heap) (snd (snd (lookups x hosts (c, heap)))) = heap"
proof (induction hosts arbitrary: c heap)
  case Nil
  then show ?case by simp
next
  case (Cons host hosts)
  obtain client c1 heap1 where h: "httpClient x host (c, heap) = (client, (c1, heap1))"
    using prod_cases3 by blast
  have p: "take (length heap) heap1 = heap"
  proof (cases "cache c host")
    case None
    then show ?thesis
      using httpClient_miss(3) [where c = c and host = host and x = x and heap = heap] h by simp
  next
    case (Some a)
    then show ?thesis
      using httpClient_hit(2) [where c = c and host = host and x = x and heap = heap] h by simp
  qed
  have le: "length heap \<le> length heap1"
    using httpClient_heap_length [of x host c heap] h by simp
  have "take (length heap1) (snd (snd (lookups x hosts (c1, heap1)))) = heap1"
    by (rule Cons.IH)
  then have "take (length heap) (take (length heap1) (snd (snd (lookups x hosts (c1, heap1))))) = heap"
    using p by simp
  then have "take (length heap) (snd (snd (lookups x hosts (c1, heap1)))) = heap"
    using le by (simp add: min_def)
  then show ?case
    by (simp add: h lookups_Cons del: lookups.simps(2))
qed


lemma httpClient_initialised:
  "gitEnv (fst (snd (httpClient x host (c, heap)))) \<noteq> None"
  "osEnv (fst (snd (httpClient x host (c, heap)))) \<noteq> None"
  "hostClients (fst (snd (httpClient x host (c, heap)))) \<noteq> None"
  by (simp_all add: httpClient_def Let_def split: option.split)

lemma httpClient_hit_initialised:
  assumes "cache c host = Some a"
      and "gitEnv c \<noteq> None" and "osEnv c \<noteq> None" and "hostClients c \<noteq> None"
  shows "httpClient x host (c, heap) = (a, (c, heap))"
proof -
  from assms(2-4) obtain g e m
    where "gitEnv c = Some g" "osEnv c = Some e" "hostClients c = Some m"
    by auto
  then show ?thesis
    using assms(1) by (simp add: httpClient_def cache_def Let_def)
qed

lemma lookups_initialised:
  assumes "hosts \<noteq> []"
  shows "gitEnv (fst (snd (lookups x hosts st))) \<noteq> None
       \<and> osEnv (fst (snd (lookups x hosts st))) \<noteq> None
       \<and> hostClients (fst (snd (lookups x hosts st))) \<noteq> None"
  using assms
proof (induction hosts arbitrary: st)
  case Nil
  then show ?case by simp
next
  case (Cons host hosts)
  show ?case
  proof (cases "hosts = []")
    case True
    then show ?thesis
      using httpClient_initialised [of x host "fst st" "snd st"]
      by (simp add: lookups_Cons del: lookups.simps(2))
  next
    case False
    then show ?thesis
      using Cons.IH [of "snd (httpClient x host st)"]
      by (simp add: lookups_Cons del: lookups.simps(2))
  qed
qed

lemma Do_eq:
  assumes "httpClient x (Host req) st = (client, st1)"
      and "http_Client_Do client (snd st1) req w = ((res, err), w1)"
  shows "Do x http_Client_Do handleResponse req (st, w) =
     (case err of
        Some e \<Rightarrow> ((res, Some e), st1, w1)
      | None \<Rightarrow>
          ((res, fst (handleResponse (fst st1) res w1)), st1,
           snd (handleResponse (fst st1) res w1)))"
  using assms by (simp add: Do_def case_prod_beta split: option.splits)

text \<open>
  C1. A sequence of calls of \<^verbatim>\<open>httpClient\<close> on one client, for the hosts of a list, builds
  one transport client for each distinct host that was not cached before, so at most one
  for each distinct host, and leaves the clients built earlier in place. Calls for the same
  host return the same pointer, which is the one the cache holds for the host. Any later
  call for one of these hosts returns that pointer again and changes nothing, and \<^verbatim>\<open>Do\<close>
  for a request to such a host performs the request through that pointer and builds
  nothing.
\<close>

theorem host_client_cache:
  assumes "lookups x hosts (c, heap) = (clients, (c', heap'))"
  shows "length heap' = length heap + card (set hosts - dom (cache c))
    \<and> length heap' \<le> length heap + card (set hosts)
    \<and> take (length heap) heap' = heap
    \<and> length clients = length hosts
    \<and> (\<forall>i<length hosts. cache c' (hosts ! i) = Some (clients ! i))
    \<and> (\<forall>i<length hosts. \<forall>j<length hosts. hosts ! i = hosts ! j \<longrightarrow> clients ! i = clients ! j)
    \<and> (\<forall>i<length hosts. httpClient x (hosts ! i) (c', heap') = (clients ! i, (c', heap')))
    \<and> (\<forall>i<length hosts. Host req = hosts ! i \<longrightarrow>
          Do x http_Client_Do handleResponse req ((c', heap'), w) =
            (case http_Client_Do (clients ! i) heap' req w of
               ((res, Some e), w1) \<Rightarrow> ((res, Some e), (c', heap'), w1)
             | ((res, None), w1) \<Rightarrow>
                 ((res, fst (handleResponse c' res w1)), (c', heap'), snd (handleResponse c' res w1))))"
proof -
  have cl: "clients = fst (lookups x hosts (c, heap))"
    and c': "c' = fst (snd (lookups x hosts (c, heap)))"
    and h': "heap' = snd (snd (lookups x hosts (c, heap)))"
    using assms by simp_all
  have count: "length heap' = length heap + card (set hosts - dom (cache c))"
    unfolding h' by (rule lookups_heap_length)
  have "card (set hosts - dom (cache c)) \<le> card (set hosts)"
    by (simp add: card_mono)
  with count have atmost: "length heap' \<le> length heap + card (set hosts)"
    by simp
  have pre: "take (length heap) heap' = heap"
    unfolding h' by (rule lookups_heap_prefix)
  have len: "length clients = length hosts"
    unfolding cl by (rule lookups_length)
  have stored: "cache c' (hosts ! i) = Some (clients ! i)" if "i < length hosts" for i
    unfolding cl c' using that by (rule lookups_cache)
  have same: "clients ! i = clients ! j"
    if "i < length hosts" "j < length hosts" "hosts ! i = hosts ! j" for i j
    using stored [OF that(1)] stored [OF that(2)] that(3) by simp
  have again: "httpClient x (hosts ! i) (c', heap') = (clients ! i, (c', heap'))"
    if "i < length hosts" for i
  proof -
    from that have "hosts \<noteq> []" by auto
    then have "gitEnv c' \<noteq> None" "osEnv c' \<noteq> None" "hostClients c' \<noteq> None"
      unfolding c' using lookups_initialised [of hosts x "(c, heap)"] by simp_all
    then show ?thesis
      using stored [OF that] by (simp add: httpClient_hit_initialised)
  qed
  have do: "Do x http_Client_Do handleResponse req ((c', heap'), w) =
            (case http_Client_Do (clients ! i) heap' req w of
               ((res, Some e), w1) \<Rightarrow> ((res, Some e), (c', heap'), w1)
             | ((res, None), w1) \<Rightarrow>
                 ((res, fst (handleResponse c' res w1)), (c', heap'), snd (handleResponse c' res w1)))"
    if "i < length hosts" "Host req = hosts ! i" for i
  proof -
    obtain res err w1 where r: "http_Client_Do (clients ! i) heap' req w = ((res, err), w1)"
      by (cases "http_Client_Do (clients ! i) heap' req w") auto
    have g: "httpClient x (Host req) (c', heap') = (clients ! i, (c', heap'))"
      using again [OF that(1)] that(2) by simp
    have r': "http_Client_Do (clients ! i) (snd (c', heap')) req w = ((res, err), w1)"
      using r by simp
    show ?thesis
      unfolding Do_eq [where http_Client_Do = http_Client_Do, OF g r']
      by (simp add: r split: option.splits)
  qed
  have stored': "\<forall>i<length hosts. cache c' (hosts ! i) = Some (clients ! i)"
    using stored by blast
  have same': "\<forall>i<length hosts. \<forall>j<length hosts. hosts ! i = hosts ! j \<longrightarrow> clients ! i = clients ! j"
    using same by blast
  have again': "\<forall>i<length hosts. httpClient x (hosts ! i) (c', heap') = (clients ! i, (c', heap'))"
    using again by blast
  have do': "\<forall>i<length hosts. Host req = hosts ! i \<longrightarrow>
          Do x http_Client_Do handleResponse req ((c', heap'), w) =
            (case http_Client_Do (clients ! i) heap' req w of
               ((res, Some e), w1) \<Rightarrow> ((res, Some e), (c', heap'), w1)
             | ((res, None), w1) \<Rightarrow>
                 ((res, fst (handleResponse c' res w1)), (c', heap'), snd (handleResponse c' res w1)))"
    using do by blast
  show ?thesis
    by (rule conjI [OF count conjI [OF atmost conjI [OF pre conjI [OF len
          conjI [OF stored' conjI [OF same' conjI [OF again' do']]]]]]])
qed


theorem host_client_cache_witness:
  "case lookups
          \<lparr>ProxyFromClient = HTTPProxy, isCertVerificationDisabledForHost = (\<lambda>c host. SkipSSLVerify c),
           getRootCAsForHost = (\<lambda>c host. Some (0::nat))\<rparr>
          [''a.example'', ''b.example'', ''a.example'']
          (\<lparr>Endpoints = (0::nat), Credentials = None, Netrc = (0::nat), DialTimeout = 0,
            KeepaliveTimeout = 0, TLSTimeout = 0, ConcurrentTransfers = 0, HTTPSProxy = [],
            HTTPProxy = [], NoProxy = [], SkipSSLVerify = False, hostClients = None,
            gitEnv = None, osEnv = None\<rparr>, []) of
     (clients, c', heap') \<Rightarrow>
       length heap' = 2 \<and> length clients = 3 \<and> clients ! 0 = clients ! 2
       \<and> cache c' ''a.example'' = Some (clients ! 0)"
proof -
  obtain clients c' heap' where r: "lookups
          \<lparr>ProxyFromClient = HTTPProxy, isCertVerificationDisabledForHost = (\<lambda>c host. SkipSSLVerify c),
           getRootCAsForHost = (\<lambda>c host. Some (0::nat))\<rparr>
          [''a.example'', ''b.example'', ''a.example'']
          (\<lparr>Endpoints = (0::nat), Credentials = None, Netrc = (0::nat), DialTimeout = 0,
            KeepaliveTimeout = 0, TLSTimeout = 0, ConcurrentTransfers = 0, HTTPSProxy = [],
            HTTPProxy = [], NoProxy = [], SkipSSLVerify = False, hostClients = None,
            gitEnv = None, osEnv = None\<rparr>, []) = (clients, (c', heap'))"
    using prod_cases3 by blast
  note t = host_client_cache [OF r, where req = "\<lparr>Method = [], URL = [], Host = []\<rparr>"
      and http_Client_Do = "\<lambda>a h q (n::nat). ((0::nat, None), n)"
      and handleResponse = "\<lambda>c p (n::nat). (None, n)" and w = 0]
  have d: "set [''a.example'', ''b.example'', ''a.example'']
      - dom (cache \<lparr>Endpoints = (0::nat), Credentials = None, Netrc = (0::nat), DialTimeout = 0,
            KeepaliveTimeout = 0, TLSTimeout = 0, ConcurrentTransfers = 0, HTTPSProxy = [],
            HTTPProxy = [], NoProxy = [], SkipSSLVerify = False, hostClients = None,
            gitEnv = None, osEnv = None\<rparr>) = {''a.example'', ''b.example''}"
    by (auto simp: cache_def)
  have n: "length heap' = 2"
    using t [THEN conjunct1] unfolding d by simp
  have l: "length clients = 3"
    using t by simp
  have "\<forall>i<3. \<forall>j<3. [''a.example'', ''b.example'', ''a.example''] ! i =
      [''a.example'', ''b.example'', ''a.example''] ! j \<longrightarrow> clients ! i = clients ! j"
    using t by simp
  from this [rule_format, of 0 2] have e: "clients ! 0 = clients ! 2"
    by simp
  have "\<forall>i<3. cache c' ([''a.example'', ''b.example'', ''a.example''] ! i) = Some (clients ! i)"
    using t by simp
  from this [rule_format, of 0] have f: "cache c' ''a.example'' = Some (clients ! 0)"
    by simp
  show ?thesis
    unfolding r prod.case using n l e f by blast
qed

text \<open>
  C7. \<^verbatim>\<open>Do\<close> takes the client of the request's host and performs the request through it.
  When that call gives an error, \<^verbatim>\<open>Do\<close> returns the response and the error as they are,
  and \<^verbatim>\<open>handleResponse\<close> is not consulted: the world is left as the call left it. When the
  call gives no error, \<^verbatim>\<open>Do\<close> returns the same response together with whatever
  \<^verbatim>\<open>handleResponse\<close> gives for it, nil or an error.
\<close>

theorem Do_errors:
  assumes "httpClient x (Host req) st = (client, st1)"
  shows "(http_Client_Do client (snd st1) req w = ((res, Some e), w1) \<longrightarrow>
            Do x http_Client_Do handleResponse req (st, w) = ((res, Some e), st1, w1))
       \<and> (http_Client_Do client (snd st1) req w = ((res, None), w1) \<longrightarrow>
            Do x http_Client_Do handleResponse req (st, w) =
              ((res, fst (handleResponse (fst st1) res w1)), st1,
               snd (handleResponse (fst st1) res w1)))"
proof (intro conjI impI)
  assume r: "http_Client_Do client (snd st1) req w = ((res, Some e), w1)"
  show "Do x http_Client_Do handleResponse req (st, w) = ((res, Some e), st1, w1)"
    unfolding Do_eq [where http_Client_Do = http_Client_Do, OF assms r] by simp
next
  assume r: "http_Client_Do client (snd st1) req w = ((res, None), w1)"
  show "Do x http_Client_Do handleResponse req (st, w) =
      ((res, fst (handleResponse (fst st1) res w1)), st1, snd (handleResponse (fst st1) res w1))"
    unfolding Do_eq [where http_Client_Do = http_Client_Do, OF assms r] by simp
qed

theorem Do_errors_witness:
  "fst (Do \<lparr>ProxyFromClient = HTTPProxy, isCertVerificationDisabledForHost = (\<lambda>c host. SkipSSLVerify c),
           getRootCAsForHost = (\<lambda>c host. Some (0::nat))\<rparr>
          (\<lambda>a h q (n::nat). ((0::nat, Some (Opaque ''dial tcp: i/o timeout'')), n))
          (\<lambda>c p n. (Some (Opaque ''not reached''), Suc n))
          \<lparr>Method = ''GET'', URL = ''https://a.example/info'', Host = ''a.example''\<rparr>
          ((\<lparr>Endpoints = (0::nat), Credentials = None, Netrc = (0::nat), DialTimeout = 0,
            KeepaliveTimeout = 0, TLSTimeout = 0, ConcurrentTransfers = 0, HTTPSProxy = [],
            HTTPProxy = [], NoProxy = [], SkipSSLVerify = False, hostClients = None,
            gitEnv = None, osEnv = None\<rparr>, []), 0))
     = (0, Some (Opaque ''dial tcp: i/o timeout''))
   \<and> snd (snd (Do \<lparr>ProxyFromClient = HTTPProxy, isCertVerificationDisabledForHost = (\<lambda>c host. SkipSSLVerify c),
           getRootCAsForHost = (\<lambda>c host. Some (0::nat))\<rparr>
          (\<lambda>a h q (n::nat). ((0::nat, Some (Opaque ''dial tcp: i/o timeout'')), n))
          (\<lambda>c p n. (Some (Opaque ''not reached''), Suc n))
          \<lparr>Method = ''GET'', URL = ''https://a.example/info'', Host = ''a.example''\<rparr>
          ((\<lparr>Endpoints = (0::nat), Credentials = None, Netrc = (0::nat), DialTimeout = 0,
            KeepaliveTimeout = 0, TLSTimeout = 0, ConcurrentTransfers = 0, HTTPSProxy = [],
            HTTPProxy = [], NoProxy = [], SkipSSLVerify = False, hostClients = None,
            gitEnv = None, osEnv = None\<rparr>, []), 0)))
     = 0
   \<and> fst (Do \<lparr>ProxyFromClient = HTTPProxy, isCertVerificationDisabledForHost = (\<lambda>c host. SkipSSLVerify c),
           getRootCAsForHost = (\<lambda>c host. Some (0::nat))\<rparr>
          (\<lambda>a h q (n::nat). ((7::nat, None), n))
          (\<lambda>c p n. (Some (Opaque ''Unable to parse HTTP response''), Suc n))
          \<lparr>Method = ''GET'', URL = ''https://a.example/info'', Host = ''a.example''\<rparr>
          ((\<lparr>Endpoints = (0::nat), Credentials = None, Netrc = (0::nat), DialTimeout = 0,
            KeepaliveTimeout = 0, TLSTimeout = 0, ConcurrentTransfers = 0, HTTPSProxy = [],
            HTTPProxy = [], NoProxy = [], SkipSSLVerify = False, hostClients = None,
            gitEnv = None, osEnv = None\<rparr>, []), 0))
     = (7, Some (Opaque ''Unable to parse HTTP response''))"
proof -
  obtain client st1 where h: "httpClient
          \<lparr>ProxyFromClient = HTTPProxy, isCertVerificationDisabledForHost = (\<lambda>c host. SkipSSLVerify c),
           getRootCAsForHost = (\<lambda>c host. Some (0::nat))\<rparr>
          (Host \<lparr>Method = ''GET'', URL = ''https://a.example/info'', Host = ''a.example''\<rparr>)
          (\<lparr>Endpoints = (0::nat), Credentials = None, Netrc = (0::nat), DialTimeout = 0,
            KeepaliveTimeout = 0, TLSTimeout = 0, ConcurrentTransfers = 0, HTTPSProxy = [],
            HTTPProxy = [], NoProxy = [], SkipSSLVerify = False, hostClients = None,
            gitEnv = None, osEnv = None\<rparr>, []) = (client, st1)"
    by (rule prod.exhaust)
  have 1: "Do \<lparr>ProxyFromClient = HTTPProxy, isCertVerificationDisabledForHost = (\<lambda>c host. SkipSSLVerify c),
           getRootCAsForHost = (\<lambda>c host. Some (0::nat))\<rparr>
          (\<lambda>a h q (n::nat). ((0::nat, Some (Opaque ''dial tcp: i/o timeout'')), n))
          (\<lambda>c p n. (Some (Opaque ''not reached''), Suc n))
          \<lparr>Method = ''GET'', URL = ''https://a.example/info'', Host = ''a.example''\<rparr>
          ((\<lparr>Endpoints = (0::nat), Credentials = None, Netrc = (0::nat), DialTimeout = 0,
            KeepaliveTimeout = 0, TLSTimeout = 0, ConcurrentTransfers = 0, HTTPSProxy = [],
            HTTPProxy = [], NoProxy = [], SkipSSLVerify = False, hostClients = None,
            gitEnv = None, osEnv = None\<rparr>, []), 0)
      = ((0, Some (Opaque ''dial tcp: i/o timeout'')), st1, 0)"
    using Do_errors [OF h, where http_Client_Do = "\<lambda>a h q (n::nat). ((0::nat, Some (Opaque ''dial tcp: i/o timeout'')), n)"
        and handleResponse = "\<lambda>c p n. (Some (Opaque ''not reached''), Suc n)"
        and w = 0 and res = 0 and e = "Opaque ''dial tcp: i/o timeout''" and ?w1.0 = 0]
    by simp
  have 2: "Do \<lparr>ProxyFromClient = HTTPProxy, isCertVerificationDisabledForHost = (\<lambda>c host. SkipSSLVerify c),
           getRootCAsForHost = (\<lambda>c host. Some (0::nat))\<rparr>
          (\<lambda>a h q (n::nat). ((7::nat, None), n))
          (\<lambda>c p n. (Some (Opaque ''Unable to parse HTTP response''), Suc n))
          \<lparr>Method = ''GET'', URL = ''https://a.example/info'', Host = ''a.example''\<rparr>
          ((\<lparr>Endpoints = (0::nat), Credentials = None, Netrc = (0::nat), DialTimeout = 0,
            KeepaliveTimeout = 0, TLSTimeout = 0, ConcurrentTransfers = 0, HTTPSProxy = [],
            HTTPProxy = [], NoProxy = [], SkipSSLVerify = False, hostClients = None,
            gitEnv = None, osEnv = None\<rparr>, []), 0)
      = ((7, Some (Opaque ''Unable to parse HTTP response'')), st1, Suc 0)"
    using Do_errors [OF h, where http_Client_Do = "\<lambda>a h q (n::nat). ((7::nat, None), n)"
        and handleResponse = "\<lambda>c p n. (Some (Opaque ''Unable to parse HTTP response''), Suc n)"
        and w = 0 and res = 7 and ?w1.0 = 0]
    by simp
  show ?thesis
    unfolding 1 2 by simp
qed

subsection \<open>Media types and response decoding\<close>

lemma ends_Str:
  "ends (Str l k) s i = (if take (length l) (drop i s) = l then ends k s (i + length l) else [])"
proof (induction l arbitrary: i)
  case Nil
  then show ?case by simp
next
  case (Cons c cs)
  show ?case
  proof (cases "i < length s")
    case True
    then have d: "drop i s = s ! i # drop (Suc i) s"
      by (simp add: Cons_nth_drop_Suc)
    show ?thesis using True by (simp add: Cons d)
  next
    case False
    then show ?thesis by simp
  qed
qed

lemma MatchString_BeginText:
  "MatchString (Cat BeginText r) s = (ends r s 0 \<noteq> [])"
proof -
  have "ends (Cat BeginText r) s i = (if i = 0 then ends r s 0 else [])" for i
    by simp
  then have "MatchString (Cat BeginText r) s = (\<exists>i < Suc (length s). i = 0 \<and> ends r s 0 \<noteq> [])"
    unfolding MatchString_def list_ex_iff by auto
  then show ?thesis by auto
qed

lemma ends_Str_0:
  "ends (Str l k) s 0 = (if take (length l) s = l then ends k s (length l) else [])"
  using ends_Str [of l k s 0] by (simp only: drop_0 add_0)

lemma ends_semicolon_or_end:
  "(ends (Alt (Lit c) EndText) s n \<noteq> []) = ((n < length s \<and> s ! n = c) \<or> n = length s)"
  by simp

lemma if_Nil_neq: "((if P then xs else []) \<noteq> []) = (P \<and> xs \<noteq> [])"
  by simp

lemma take_literal:
  "(take (length l) s = l \<and> ((length l < length s \<and> s ! length l = c) \<or> length l = length s))
     = (s = l \<or> prefix (l @ [c]) s)"
proof
  assume a: "take (length l) s = l \<and> ((length l < length s \<and> s ! length l = c) \<or> length l = length s)"
  then have t: "take (length l) s = l" by (rule conjunct1)
  from a consider "length l < length s \<and> s ! length l = c" | "length l = length s" by blast
  then show "s = l \<or> prefix (l @ [c]) s"
  proof cases
    case 1
    then have "take (Suc (length l)) s = take (length l) s @ [c]"
      by (simp add: take_Suc_conv_app_nth)
    then have "take (Suc (length l)) s = l @ [c]"
      by (simp only: t)
    then have "prefix (l @ [c]) s" by (metis take_is_prefix)
    then show ?thesis by (rule disjI2)
  next
    case 2
    then have "take (length s) s = l" using t by (simp only:)
    then have "s = l" by (simp only: take_all order_refl)
    then show ?thesis by (rule disjI1)
  qed
next
  assume "s = l \<or> prefix (l @ [c]) s"
  then show "take (length l) s = l \<and> ((length l < length s \<and> s ! length l = c) \<or> length l = length s)"
  proof
    assume "s = l" then show ?thesis by simp
  next
    assume "prefix (l @ [c]) s"
    then obtain r where "s = (l @ [c]) @ r" by (auto simp: prefix_def)
    then show ?thesis by (simp add: nth_append)
  qed
qed

lemma MatchString_media_type:
  "MatchString (Cat BeginText (Str l (Alt (Lit c) EndText))) s = (s = l \<or> prefix (l @ [c]) s)"
  unfolding MatchString_BeginText ends_Str_0 if_Nil_neq ends_semicolon_or_end take_literal
  by (rule refl)

lemma lfsMediaTypeRE_match:
  "MatchString lfsMediaTypeRE s =
     (s = ''application/vnd.git-lfs+json'' \<or> prefix ''application/vnd.git-lfs+json;'' s)"
  unfolding lfsMediaTypeRE_def MatchString_media_type by simp

lemma jsonMediaTypeRE_match:
  "MatchString jsonMediaTypeRE s = (s = ''application/json'' \<or> prefix ''application/json;'' s)"
  unfolding jsonMediaTypeRE_def MatchString_media_type by simp

lemma decodeResponse_no_match:
  assumes "\<not> (MatchString lfsMediaTypeRE (Header_Get (Header res) ''Content-Type'')
        \<or> MatchString jsonMediaTypeRE (Header_Get (Header res) ''Content-Type''))"
  shows "decodeResponse json_Decode errors_Wrapf res obj = (Returned None, res, obj)"
  using assms by (simp add: decodeResponse_def)

lemma decodeResponse_match:
  assumes "MatchString lfsMediaTypeRE (Header_Get (Header res) ''Content-Type'')
        \<or> MatchString jsonMediaTypeRE (Header_Get (Header res) ''Content-Type'')"
      and "json_Decode (unread (Body res)) obj = (err, obj1, rest)"
  shows "decodeResponse json_Decode errors_Wrapf res obj =
     ((case err of
         None \<Rightarrow> Returned None
       | Some e \<Rightarrow>
           (case Request res of
              None \<Rightarrow> Panicked
            | Some rq \<Rightarrow>
                Returned (Some (errors_Wrapf e ''Unable to parse HTTP response for %s %s''
                  [Method rq, URL rq])))),
      res\<lparr>Body := \<lparr>unread = rest, closes = Suc (closes (Body res))\<rparr>\<rparr>, obj1)"
  using assms by (auto simp: decodeResponse_def Let_def split: option.splits)


lemma decodeResponse_match_target:
  assumes "MatchString lfsMediaTypeRE (Header_Get (Header res) ''Content-Type'')
        \<or> MatchString jsonMediaTypeRE (Header_Get (Header res) ''Content-Type'')"
  shows "snd (snd (decodeResponse json_Decode errors_Wrapf res obj)) =
           fst (snd (json_Decode (unread (Body res)) obj))"
    and "unread (Body (fst (snd (decodeResponse json_Decode errors_Wrapf res obj)))) =
           snd (snd (json_Decode (unread (Body res)) obj))"
    and "closes (Body (fst (snd (decodeResponse json_Decode errors_Wrapf res obj)))) =
           closes (Body res) + 1"
proof -
  obtain err obj1 rest where r: "json_Decode (unread (Body res)) obj = (err, obj1, rest)"
    by (rule prod_cases3)
  note m = decodeResponse_match [where errors_Wrapf = errors_Wrapf and json_Decode = json_Decode,
      OF assms r]
  show "snd (snd (decodeResponse json_Decode errors_Wrapf res obj)) =
           fst (snd (json_Decode (unread (Body res)) obj))"
    unfolding m r by simp
  show "unread (Body (fst (snd (decodeResponse json_Decode errors_Wrapf res obj)))) =
           snd (snd (json_Decode (unread (Body res)) obj))"
    unfolding m r by simp
  show "closes (Body (fst (snd (decodeResponse json_Decode errors_Wrapf res obj)))) =
           closes (Body res) + 1"
    unfolding m r by simp
qed

text \<open>
  C8. When the \<^verbatim>\<open>Content-Type\<close> of the response is neither
  \<^verbatim>\<open>application/vnd.git-lfs+json\<close> nor \<^verbatim>\<open>application/json\<close>, each either alone or
  followed by \<^verbatim>\<open>;\<close> and anything, \<^verbatim>\<open>decodeResponse\<close> returns no error and leaves the
  target and the response as they were. Otherwise the target and the unread bytes are the
  ones the JSON decoder leaves. These content types are exactly the ones one of the two
  regular expressions matches.
\<close>

theorem decodeResponse_content_type:
  assumes "Header_Get (Header res) ''Content-Type'' = ctype"
  shows "(ctype \<noteq> ''application/vnd.git-lfs+json''
          \<and> \<not> prefix ''application/vnd.git-lfs+json;'' ctype
          \<and> ctype \<noteq> ''application/json''
          \<and> \<not> prefix ''application/json;'' ctype
        \<longrightarrow> decodeResponse json_Decode errors_Wrapf res obj = (Returned None, res, obj))
    \<and> (ctype = ''application/vnd.git-lfs+json''
          \<or> prefix ''application/vnd.git-lfs+json;'' ctype
          \<or> ctype = ''application/json''
          \<or> prefix ''application/json;'' ctype
        \<longrightarrow> snd (snd (decodeResponse json_Decode errors_Wrapf res obj)) =
              fst (snd (json_Decode (unread (Body res)) obj))
            \<and> unread (Body (fst (snd (decodeResponse json_Decode errors_Wrapf res obj)))) =
              snd (snd (json_Decode (unread (Body res)) obj)))
    \<and> (MatchString lfsMediaTypeRE ctype \<or> MatchString jsonMediaTypeRE ctype) =
        (ctype = ''application/vnd.git-lfs+json''
          \<or> prefix ''application/vnd.git-lfs+json;'' ctype
          \<or> ctype = ''application/json''
          \<or> prefix ''application/json;'' ctype)"
proof -
  have m: "(MatchString lfsMediaTypeRE ctype \<or> MatchString jsonMediaTypeRE ctype) =
        (ctype = ''application/vnd.git-lfs+json''
          \<or> prefix ''application/vnd.git-lfs+json;'' ctype
          \<or> ctype = ''application/json''
          \<or> prefix ''application/json;'' ctype)"
    unfolding lfsMediaTypeRE_match jsonMediaTypeRE_match by blast
  have no: "decodeResponse json_Decode errors_Wrapf res obj = (Returned None, res, obj)"
    if "\<not> (MatchString lfsMediaTypeRE ctype \<or> MatchString jsonMediaTypeRE ctype)"
    using that decodeResponse_no_match [of res json_Decode errors_Wrapf obj]
    unfolding assms by blast
  have yes: "snd (snd (decodeResponse json_Decode errors_Wrapf res obj)) =
              fst (snd (json_Decode (unread (Body res)) obj))
            \<and> unread (Body (fst (snd (decodeResponse json_Decode errors_Wrapf res obj)))) =
              snd (snd (json_Decode (unread (Body res)) obj))"
    if "MatchString lfsMediaTypeRE ctype \<or> MatchString jsonMediaTypeRE ctype"
    using that decodeResponse_match_target(1,2) [of res json_Decode errors_Wrapf obj]
    unfolding assms by blast
  show ?thesis
    using no yes unfolding m by blast
qed


theorem decodeResponse_content_type_witness:
  "decodeResponse
       (\<lambda>s (b::bool). if s = ''true'' then (None, True, []) else (Some (Opaque ''invalid character''), b, []))
       (\<lambda>e f args. Opaque f)
       \<lparr>Header = map_of [(''Content-Type'', [''text/plain''])],
        Body = \<lparr>unread = ''true'', closes = 0\<rparr>, Request = None\<rparr> False
     = (Returned None,
        \<lparr>Header = map_of [(''Content-Type'', [''text/plain''])],
         Body = \<lparr>unread = ''true'', closes = 0\<rparr>, Request = None\<rparr>, False)
   \<and> snd (snd (decodeResponse
       (\<lambda>s (b::bool). if s = ''true'' then (None, True, []) else (Some (Opaque ''invalid character''), b, []))
       (\<lambda>e f args. Opaque f)
       \<lparr>Header = map_of [(''Content-Type'', [''application/json; charset=utf-8''])],
        Body = \<lparr>unread = ''true'', closes = 0\<rparr>, Request = None\<rparr> False))
     = True"
proof -
  have h1: "Header_Get (Header \<lparr>Header = map_of [(''Content-Type'', [''text/plain''])],
        Body = \<lparr>unread = ''true'', closes = 0\<rparr>, Request = None\<rparr>) ''Content-Type'' = ''text/plain''"
    by (simp add: Header_Get_def)
  have h2: "Header_Get (Header \<lparr>Header = map_of [(''Content-Type'', [''application/json; charset=utf-8''])],
        Body = \<lparr>unread = ''true'', closes = 0\<rparr>, Request = None\<rparr>) ''Content-Type'' =
      ''application/json; charset=utf-8''"
    by (simp add: Header_Get_def)
  have 1: "decodeResponse
       (\<lambda>s (b::bool). if s = ''true'' then (None, True, []) else (Some (Opaque ''invalid character''), b, []))
       (\<lambda>e f args. Opaque f)
       \<lparr>Header = map_of [(''Content-Type'', [''text/plain''])],
        Body = \<lparr>unread = ''true'', closes = 0\<rparr>, Request = None\<rparr> False
     = (Returned None,
        \<lparr>Header = map_of [(''Content-Type'', [''text/plain''])],
         Body = \<lparr>unread = ''true'', closes = 0\<rparr>, Request = None\<rparr>, False)"
    using decodeResponse_content_type [OF h1,
        where json_Decode = "\<lambda>s (b::bool). if s = ''true'' then (None, True, []) else (Some (Opaque ''invalid character''), b, [])"
        and errors_Wrapf = "\<lambda>e f args. Opaque f" and obj = False]
    by simp
  have 2: "snd (snd (decodeResponse
       (\<lambda>s (b::bool). if s = ''true'' then (None, True, []) else (Some (Opaque ''invalid character''), b, []))
       (\<lambda>e f args. Opaque f)
       \<lparr>Header = map_of [(''Content-Type'', [''application/json; charset=utf-8''])],
        Body = \<lparr>unread = ''true'', closes = 0\<rparr>, Request = None\<rparr> False))
     = True"
    using decodeResponse_content_type [OF h2,
        where json_Decode = "\<lambda>s (b::bool). if s = ''true'' then (None, True, []) else (Some (Opaque ''invalid character''), b, [])"
        and errors_Wrapf = "\<lambda>e f args. Opaque f" and obj = False]
    by simp
  from 1 2 show ?thesis by (rule conjI)
qed

text \<open>
  C9. When the content type matches one of the two patterns, \<^verbatim>\<open>decodeResponse\<close> closes the
  body once, whether the JSON decoder fails or not; when it does not match, the body is not
  closed. When the decoder fails on the response of a request, the error returned is
  \<^verbatim>\<open>errors.Wrapf\<close> of the decoder's error, with the format
  \<^verbatim>\<open>Unable to parse HTTP response for %s %s\<close> and the request's method and URL as its
  arguments; when the decoder succeeds, no error is returned.
\<close>

theorem decodeResponse_closes_and_wraps:
  assumes "decodeResponse json_Decode errors_Wrapf res obj = (out, res', obj')"
  shows "(MatchString lfsMediaTypeRE (Header_Get (Header res) ''Content-Type'')
          \<or> MatchString jsonMediaTypeRE (Header_Get (Header res) ''Content-Type'')
        \<longrightarrow> closes (Body res') = closes (Body res) + 1)
    \<and> (\<not> (MatchString lfsMediaTypeRE (Header_Get (Header res) ''Content-Type'')
          \<or> MatchString jsonMediaTypeRE (Header_Get (Header res) ''Content-Type''))
        \<longrightarrow> closes (Body res') = closes (Body res))
    \<and> ((MatchString lfsMediaTypeRE (Header_Get (Header res) ''Content-Type'')
          \<or> MatchString jsonMediaTypeRE (Header_Get (Header res) ''Content-Type''))
         \<and> fst (json_Decode (unread (Body res)) obj) = Some e \<and> Request res = Some rq
        \<longrightarrow> out = Returned (Some (errors_Wrapf e ''Unable to parse HTTP response for %s %s''
              [Method rq, URL rq])))
    \<and> ((MatchString lfsMediaTypeRE (Header_Get (Header res) ''Content-Type'')
          \<or> MatchString jsonMediaTypeRE (Header_Get (Header res) ''Content-Type''))
         \<and> fst (json_Decode (unread (Body res)) obj) = None
        \<longrightarrow> out = Returned None)"
proof -
  have out: "out = fst (decodeResponse json_Decode errors_Wrapf res obj)"
    and res': "res' = fst (snd (decodeResponse json_Decode errors_Wrapf res obj))"
    using assms by simp_all
  obtain err obj1 rest where r: "json_Decode (unread (Body res)) obj = (err, obj1, rest)"
    by (rule prod_cases3)
  have closed: "closes (Body res') = closes (Body res) + 1"
    if "MatchString lfsMediaTypeRE (Header_Get (Header res) ''Content-Type'')
          \<or> MatchString jsonMediaTypeRE (Header_Get (Header res) ''Content-Type'')"
    unfolding res' using that by (rule decodeResponse_match_target(3))
  have untouched: "closes (Body res') = closes (Body res)"
    if "\<not> (MatchString lfsMediaTypeRE (Header_Get (Header res) ''Content-Type'')
          \<or> MatchString jsonMediaTypeRE (Header_Get (Header res) ''Content-Type''))"
    unfolding res' decodeResponse_no_match [OF that] by simp
  have wrapped: "out = Returned (Some (errors_Wrapf e ''Unable to parse HTTP response for %s %s''
              [Method rq, URL rq]))"
    if "MatchString lfsMediaTypeRE (Header_Get (Header res) ''Content-Type'')
          \<or> MatchString jsonMediaTypeRE (Header_Get (Header res) ''Content-Type'')"
      and "fst (json_Decode (unread (Body res)) obj) = Some e" and "Request res = Some rq"
    unfolding out decodeResponse_match [where errors_Wrapf = errors_Wrapf
        and json_Decode = json_Decode, OF that(1) r]
    using that(2,3) r by simp
  have ok: "out = Returned None"
    if "MatchString lfsMediaTypeRE (Header_Get (Header res) ''Content-Type'')
          \<or> MatchString jsonMediaTypeRE (Header_Get (Header res) ''Content-Type'')"
      and "fst (json_Decode (unread (Body res)) obj) = None"
    unfolding out decodeResponse_match [where errors_Wrapf = errors_Wrapf
        and json_Decode = json_Decode, OF that(1) r]
    using that(2) r by simp
  show ?thesis
    using closed untouched wrapped ok by blast
qed


theorem decodeResponse_closes_and_wraps_witness:
  "fst (decodeResponse
       (\<lambda>s (b::bool). if s = ''true'' then (None, True, []) else (Some (Opaque ''invalid character''), b, []))
       (\<lambda>e f args. Opaque (concat (f # args)))
       \<lparr>Header = map_of [(''Content-Type'', [''application/vnd.git-lfs+json''])],
        Body = \<lparr>unread = ''{'', closes = 0\<rparr>,
        Request = Some \<lparr>Method = ''POST'', URL = ''https://a.example/objects/batch'',
                         Host = ''a.example''\<rparr>\<rparr> False)
     = Returned (Some ((\<lambda>e f args. Opaque (concat (f # args))) (Opaque ''invalid character'')
         ''Unable to parse HTTP response for %s %s'' [''POST'', ''https://a.example/objects/batch'']))
   \<and> closes (Body (fst (snd (decodeResponse
       (\<lambda>s (b::bool). if s = ''true'' then (None, True, []) else (Some (Opaque ''invalid character''), b, []))
       (\<lambda>e f args. Opaque (concat (f # args)))
       \<lparr>Header = map_of [(''Content-Type'', [''application/vnd.git-lfs+json''])],
        Body = \<lparr>unread = ''{'', closes = 0\<rparr>,
        Request = Some \<lparr>Method = ''POST'', URL = ''https://a.example/objects/batch'',
                         Host = ''a.example''\<rparr>\<rparr> False)))) = 1"
proof -
  obtain out res' obj' where r: "decodeResponse
       (\<lambda>s (b::bool). if s = ''true'' then (None, True, []) else (Some (Opaque ''invalid character''), b, []))
       (\<lambda>e f args. Opaque (concat (f # args)))
       \<lparr>Header = map_of [(''Content-Type'', [''application/vnd.git-lfs+json''])],
        Body = \<lparr>unread = ''{'', closes = 0\<rparr>,
        Request = Some \<lparr>Method = ''POST'', URL = ''https://a.example/objects/batch'',
                         Host = ''a.example''\<rparr>\<rparr> False = (out, res', obj')"
    by (rule prod_cases3)
  have m: "MatchString lfsMediaTypeRE (Header_Get (Header \<lparr>Header = map_of [(''Content-Type'', [''application/vnd.git-lfs+json''])],
        Body = \<lparr>unread = ''{'', closes = 0\<rparr>,
        Request = Some \<lparr>Method = ''POST'', URL = ''https://a.example/objects/batch'',
                         Host = ''a.example''\<rparr>\<rparr>) ''Content-Type'')
      \<or> MatchString jsonMediaTypeRE (Header_Get (Header \<lparr>Header = map_of [(''Content-Type'', [''application/vnd.git-lfs+json''])],
        Body = \<lparr>unread = ''{'', closes = 0\<rparr>,
        Request = Some \<lparr>Method = ''POST'', URL = ''https://a.example/objects/batch'',
                         Host = ''a.example''\<rparr>\<rparr>) ''Content-Type'')"
    by (simp add: Header_Get_def lfsMediaTypeRE_match)
  note t = decodeResponse_closes_and_wraps [OF r, where e = "Opaque ''invalid character''"
      and rq = "\<lparr>Method = ''POST'', URL = ''https://a.example/objects/batch'',
                         Host = ''a.example''\<rparr>"]
  have c: "closes (Body res') = 1"
    using t [THEN conjunct1, THEN mp, OF m] by simp
  have o: "out = Returned (Some ((\<lambda>e f args. Opaque (concat (f # args))) (Opaque ''invalid character'')
         ''Unable to parse HTTP response for %s %s'' [''POST'', ''https://a.example/objects/batch'']))"
    using t [THEN conjunct2, THEN conjunct2, THEN conjunct1] m by auto
  show ?thesis
    unfolding r using c o by simp
qed

end
